theory Spec2Isabelle
  imports Complex_Main
begin

section \<open>Outcomes of the Python code\<close>

text \<open>
  The repository is Python on top of torch, numpy and DGL. Every exception the modelled
  code can raise is a value of \<open>error\<close>; a function that can raise returns
  \<open>error + 'a\<close> with \<open>Inl\<close> for the exception. Floating-point numbers are modelled as
  real numbers; a float operation whose result is not a real number (a division by zero,
  the mean of an empty tensor) has the outcome \<open>Inl NonFinite\<close>, so that HOL's own
  \<open>x / 0 = 0\<close> never stands for it.
\<close>

datatype error =
    AssertionError
  | RuntimeError
  | IndexError
  | KeyError
  | ValueError
  | ZeroDivisionError
  | AttributeError
  | NonFinite

definition bind :: "error + 'a \<Rightarrow> ('a \<Rightarrow> error + 'b) \<Rightarrow> error + 'b" where
  "bind m f = (case m of Inl e \<Rightarrow> Inl e | Inr x \<Rightarrow> f x)"

text \<open>Running a fallible function over a list, left to right, stopping at the first error.\<close>

fun mapM :: "('a \<Rightarrow> error + 'b) \<Rightarrow> 'a list \<Rightarrow> error + 'b list" where
  "mapM f [] = Inr []"
| "mapM f (x # xs) =
     (case f x of
        Inl e \<Rightarrow> Inl e
      | Inr y \<Rightarrow> (case mapM f xs of Inl e \<Rightarrow> Inl e | Inr ys \<Rightarrow> Inr (y # ys)))"

section \<open>The distance decoder\<close>

text \<open>\<open>torch.sigmoid\<close>, over the reals.\<close>

definition sigmoid :: "real \<Rightarrow> real" where
  "sigmoid x = 1 / (1 + exp (- x))"

text \<open>
  \<open>Node2vec.loss\<close>, line 165: the target of a positive pair at walk distance \<open>d\<close> is
  \<open>torch.div(self.c, self.c + pos_dists)\<close>, element by element.
\<close>

definition dist_measure :: "real \<Rightarrow> real \<Rightarrow> error + real" where
  "dist_measure c d = (if c + d = 0 then Inl NonFinite else Inr (c / (c + d)))"

text \<open>
  \<open>dot_heuristic\<close> of \<open>run_routing\<close> (testing\_functions.py, lines 204--209):
  \<^verbatim>\<open>
  def dot_heuristic(x,y):
      d = np.sigmoid(np.dot(embedding[node_to_idx[x]], embedding[node_to_idx[y]]))
      if d == 0:
          return 0
      D = config["node2vec"]["init_c"]*(1-d)/d
      return D
  \<close>
  \<open>node_to_idx\<close> is a dictionary from the graph's node names to row numbers,
  \<open>embedding\<close> the matrix of node vectors, \<open>init_c\<close> the configured decoder constant.
  The last three lines are \<open>decode_distance\<close>.

  numpy has no attribute \<open>sigmoid\<close>, and nothing in the repository defines one: the
  attribute lookup \<open>np.sigmoid\<close> raises an AttributeError. Python evaluates the
  function of a call before its arguments, so the lookup is the first thing line 205
  does, before \<open>node_to_idx\<close> or \<open>embedding\<close> are read.
\<close>

definition float_div :: "real \<Rightarrow> real \<Rightarrow> error + real" where
  "float_div a b = (if b = 0 then Inl ZeroDivisionError else Inr (a / b))"

definition decode_distance :: "real \<Rightarrow> real \<Rightarrow> error + real" where
  "decode_distance init_c d = (if d = 0 then Inr 0 else float_div (init_c * (1 - d)) d)"

definition dict_get :: "('k \<rightharpoonup> 'v) \<Rightarrow> 'k \<Rightarrow> error + 'v" where
  "dict_get m k = (case m k of None \<Rightarrow> Inl KeyError | Some v \<Rightarrow> Inr v)"

definition row_at :: "'a list \<Rightarrow> nat \<Rightarrow> error + 'a" where
  "row_at xs i = (if i < length xs then Inr (xs ! i) else Inl IndexError)"

definition dot :: "real list \<Rightarrow> real list \<Rightarrow> real" where
  "dot xs ys = sum_list (map2 (*) xs ys)"

definition np_dot :: "real list \<Rightarrow> real list \<Rightarrow> error + real" where
  "np_dot xs ys = (if length xs = length ys then Inr (dot xs ys) else Inl ValueError)"

definition np_sigmoid :: "error + (real \<Rightarrow> real)" where
  "np_sigmoid = Inl AttributeError"

definition dot_heuristic ::
  "real \<Rightarrow> ('n \<rightharpoonup> nat) \<Rightarrow> real list list \<Rightarrow> 'n \<Rightarrow> 'n \<Rightarrow> error + real" where
  "dot_heuristic init_c node_to_idx embedding x y =
     bind np_sigmoid (\<lambda>sg.
     bind (dict_get node_to_idx x) (\<lambda>i.
     bind (row_at embedding i) (\<lambda>ex.
     bind (dict_get node_to_idx y) (\<lambda>j.
     bind (row_at embedding j) (\<lambda>ey.
     bind (np_dot ex ey) (\<lambda>z.
     decode_distance init_c (sg z)))))))"

section \<open>Tensors as lists\<close>

text \<open>
  A one-dimensional tensor is a list, a two-dimensional tensor the list of its rows, a
  three-dimensional one the list of its matrices. Node and edge ids are Python integers
  (the walk pads with \<open>-1\<close>), so they are \<open>int\<close>.
\<close>

text \<open>\<open>t.repeat(n)\<close> on a one-dimensional tensor; a negative count is refused.\<close>

definition repeat :: "int \<Rightarrow> 'a list \<Rightarrow> error + 'a list" where
  "repeat n xs = (if n < 0 then Inl RuntimeError else Inr (concat (replicate (nat n) xs)))"

text \<open>
  \<open>t[idx]\<close> with an index tensor: each index reads one entry; a negative index counts
  from the end, an index outside \<open>[-n, n)\<close> raises.
\<close>

definition tensor_index :: "'a list \<Rightarrow> int \<Rightarrow> error + 'a" where
  "tensor_index xs i =
     (let n = int (length xs) in
      if 0 \<le> i \<and> i < n then Inr (xs ! nat i)
      else if - n \<le> i \<and> i < 0 then Inr (xs ! nat (n + i))
      else Inl IndexError)"

text \<open>
  \<open>t.unfold(1, size, step)\<close> on one row: the windows of \<open>size\<close> consecutive entries
  starting at every multiple of \<open>step\<close>. torch refuses a window longer than the row and
  a step that is not positive.
\<close>

definition unfold :: "int \<Rightarrow> nat \<Rightarrow> 'a list \<Rightarrow> error + 'a list list" where
  "unfold sz step xs =
     (if sz < 0 \<or> step = 0 \<or> int (length xs) < sz then Inl RuntimeError
      else Inr (map (\<lambda>j. take (nat sz) (drop (j * step) xs))
                  [0 ..< (length xs - nat sz) div step + 1]))"

text \<open>Cutting a flat list into consecutive rows of \<open>n\<close> entries.\<close>

function chunks :: "nat \<Rightarrow> 'a list \<Rightarrow> 'a list list" where
  "chunks n xs = (if n = 0 \<or> xs = [] then [] else take n xs # chunks n (drop n xs))"
  by pat_completeness auto
termination
  by (relation "measure (\<lambda>(n, xs). length xs)") auto

declare chunks.simps [simp del]

text \<open>
  \<open>t.contiguous().view(-1, cols)\<close> on the flattened entries of \<open>t\<close>: rows of \<open>cols\<close>
  entries; refused when \<open>cols\<close> is not positive or does not divide the number of entries.
\<close>

definition view_rows :: "int \<Rightarrow> 'a list \<Rightarrow> error + 'a list list" where
  "view_rows cols xs =
     (if cols \<le> 0 \<or> length xs mod nat cols \<noteq> 0 then Inl RuntimeError
      else Inr (chunks (nat cols) xs))"

text \<open>
  \<open>t.unfold(1, size, 1)\<close> followed by \<open>.contiguous().view(-1, size)\<close> on a matrix whose
  rows have \<open>ncols\<close> entries. The number of columns is part of the tensor's shape even
  when it has no row, so it is passed along.
\<close>

definition rolling_window :: "nat \<Rightarrow> int \<Rightarrow> 'a list list \<Rightarrow> error + 'a list list" where
  "rolling_window ncols sz rows =
     (if sz < 0 \<or> int ncols < sz then Inl RuntimeError
      else bind (mapM (unfold sz 1) rows) (\<lambda>ws.
           view_rows sz (concat (concat ws))))"

text \<open>
  \<open>torch.randint(high, (nrows, ncols))\<close>: independent draws from \<open>[0, high)\<close>. The
  generator is the parameter \<open>rng\<close>, an arbitrary source of natural numbers indexed by
  position; the draw at a position is the source's value reduced into \<open>[0, high)\<close>, so
  every matrix torch can return is the result for some source.
\<close>

definition randint :: "(nat \<Rightarrow> nat \<Rightarrow> nat) \<Rightarrow> int \<Rightarrow> nat \<Rightarrow> int \<Rightarrow> error + int list list" where
  "randint rng high nrows ncols =
     (if high \<le> 0 \<or> ncols < 0 then Inl RuntimeError
      else Inr (map (\<lambda>r. map (\<lambda>k. int (rng r k mod nat high)) [0 ..< nat ncols])
                  [0 ..< nrows]))"

text \<open>\<open>torch.cat([col.view(-1, 1), m], dim=-1)\<close>: one more entry in front of every row.\<close>

definition cat_column :: "'a list \<Rightarrow> 'a list list \<Rightarrow> error + 'a list list" where
  "cat_column col m =
     (if length col = length m then Inr (map2 (#) col m) else Inl RuntimeError)"

text \<open>
  An operation on two tensors, element by element, with torch's broadcasting along one
  dimension: equal sizes pair up, a size of one is repeated, anything else is refused.
  Applied twice it is the operation on two matrices.
\<close>

definition broadcast :: "('a \<Rightarrow> 'b \<Rightarrow> error + 'c) \<Rightarrow> 'a list \<Rightarrow> 'b list \<Rightarrow> error + 'c list" where
  "broadcast f xs ys =
     (if length xs = length ys then mapM (\<lambda>(x, y). f x y) (zip xs ys)
      else if length xs = 1 then mapM (\<lambda>y. f (hd xs) y) ys
      else if length ys = 1 then mapM (\<lambda>x. f x (hd ys)) xs
      else Inl RuntimeError)"

text \<open>\<open>t.mean()\<close> over all entries; the mean of no entry is not a number.\<close>

definition mean :: "real list \<Rightarrow> error + real" where
  "mean xs = (if xs = [] then Inl NonFinite else Inr (sum_list xs / real (length xs)))"

text \<open>\<open>torch.log\<close>, a real number only on positive arguments.\<close>

definition float_log :: "real \<Rightarrow> error + real" where
  "float_log x = (if x \<le> 0 then Inl NonFinite else Inr (ln x))"

section \<open>The embedding model \<open>Node2vec\<close>\<close>

text \<open>
  The graph, as far as the model reads it: \<open>g.num_nodes()\<close> and the edge feature
  \<open>g.edata['length']\<close>, one length per edge id.
\<close>

record graph =
  num_nodes :: nat
  edata_length :: "real list"

text \<open>The attributes \<open>Node2vec.__init__\<close> sets (lines 58--77).\<close>

record node2vec =
  n2v_g :: graph
  n2v_embedding_dim :: int
  n2v_walk_length :: int
  n2v_p :: real
  n2v_q :: real
  n2v_num_walks :: int
  n2v_window_size :: int
  n2v_num_negatives :: int
  n2v_N :: int
  n2v_prob :: "string option"
  n2v_embedding :: "real list list"
  n2v_c :: real

text \<open>
  \<open>nn.Embedding(num_embeddings, embedding_dim)\<close> allocates a weight matrix of that shape
  and fills it with random values, here the parameter \<open>init\<close>. The allocation refuses a
  negative size; a size of zero is an empty matrix.
\<close>

definition nn_Embedding :: "(nat \<Rightarrow> nat \<Rightarrow> real) \<Rightarrow> int \<Rightarrow> int \<Rightarrow> error + real list list" where
  "nn_Embedding init num_embeddings embedding_dim =
     (if num_embeddings < 0 \<or> embedding_dim < 0 then Inl RuntimeError
      else Inr (map (\<lambda>r. map (init r) [0 ..< nat embedding_dim]) [0 ..< nat num_embeddings]))"

text \<open>
  \<open>Node2vec.__init__\<close> (lines 52--77): the one check of the constructor is
  \<^verbatim>\<open>assert walk_length >= window_size\<close>; the table has \<open>N + 1\<close> rows. The
  argument \<open>use_sparse\<close> only selects how torch stores the gradient of the table and is
  left out.
\<close>

definition Node2vec_init ::
  "(nat \<Rightarrow> nat \<Rightarrow> real) \<Rightarrow> graph \<Rightarrow> int \<Rightarrow> int \<Rightarrow> real \<Rightarrow> real \<Rightarrow> int \<Rightarrow> int \<Rightarrow> int
     \<Rightarrow> string option \<Rightarrow> real \<Rightarrow> error + node2vec" where
  "Node2vec_init init g embedding_dim walk_length p q num_walks window_size num_negatives
       weight_name init_c =
     (if \<not> walk_length \<ge> window_size then Inl AssertionError
      else bind (nn_Embedding init (int (num_nodes g) + 1) embedding_dim) (\<lambda>emb.
        Inr \<lparr> n2v_g = g, n2v_embedding_dim = embedding_dim, n2v_walk_length = walk_length,
              n2v_p = p, n2v_q = q, n2v_num_walks = num_walks,
              n2v_window_size = window_size, n2v_num_negatives = num_negatives,
              n2v_N = int (num_nodes g), n2v_prob = weight_name,
              n2v_embedding = emb, n2v_c = init_c \<rparr>))"

subsection \<open>\<open>Node2vec.sample\<close>\<close>

text \<open>
  \<open>dgl.sampling.node2vec_random_walk(g, batch, p, q, walk_length, prob, return_eids=True)\<close>
  is a library call. It returns, for every seed of \<open>batch\<close>, a row of \<open>walk_length + 1\<close>
  node ids that starts with the seed, and a row of the \<open>walk_length\<close> ids of the edges
  it walked, entry \<open>k\<close> being the edge from node \<open>k\<close> to node \<open>k + 1\<close> of the row (\<open>-1\<close>
  in both once the walk is stuck). The random choices are the parameters \<open>walk_node\<close>
  and \<open>walk_edge\<close>: the node reached, and the edge taken, by walk \<open>r\<close> at step \<open>k\<close>.
  The seeds are taken to be nodes of the graph, as the loader supplies them from
  \<open>arange(N)\<close>; what the library does with any other seed is not modelled.
\<close>

definition node2vec_random_walk ::
  "(nat \<Rightarrow> nat \<Rightarrow> int) \<Rightarrow> (nat \<Rightarrow> nat \<Rightarrow> int) \<Rightarrow> int list \<Rightarrow> int
     \<Rightarrow> error + (int list list \<times> int list list)" where
  "node2vec_random_walk walk_node walk_edge batch walk_length =
     (if walk_length < 0 then Inl RuntimeError
      else Inr (map (\<lambda>r. batch ! r # map (walk_node r) [0 ..< nat walk_length]) [0 ..< length batch],
                map (\<lambda>r. map (walk_edge r) [0 ..< nat walk_length]) [0 ..< length batch]))"

text \<open>
  \<open>Node2vec.sample\<close> (lines 83--115), statement by statement:
  \<^verbatim>\<open>
  batch = batch.repeat(self.num_walks)
  pos_traces, edge_ids = node2vec_random_walk(self.g, batch, self.p, self.q,
                                              self.walk_length, self.prob, return_eids=True)
  pos_dists = self.g.edata['length'][edge_ids.long().view(-1)].view(-1, self.walk_length)
  pos_traces = pos_traces.unfold(1, self.window_size, 1)
  pos_traces = pos_traces.contiguous().view(-1, self.window_size)
  pos_dists = pos_dists.unfold(1, self.window_size-1, 1)
  pos_dists = pos_dists.contiguous().view(-1, self.window_size-1)
  neg_batch = batch.repeat(self.num_negatives)
  neg_traces = torch.randint(self.N, (neg_batch.size(0), self.walk_length))
  neg_traces = torch.cat([neg_batch.view(-1, 1), neg_traces], dim=-1)
  neg_traces = neg_traces.unfold(1, self.window_size, 1)
  neg_traces = neg_traces.contiguous().view(-1, self.window_size)
  return pos_traces, pos_dists, neg_traces
  \<close>
\<close>

definition sample ::
  "node2vec \<Rightarrow> (nat \<Rightarrow> nat \<Rightarrow> int) \<Rightarrow> (nat \<Rightarrow> nat \<Rightarrow> int) \<Rightarrow> (nat \<Rightarrow> nat \<Rightarrow> nat) \<Rightarrow> int list
     \<Rightarrow> error + (int list list \<times> real list list \<times> int list list)" where
  "sample self walk_node walk_edge rng seeds =
     bind (repeat (n2v_num_walks self) seeds) (\<lambda>batch.
     bind (node2vec_random_walk walk_node walk_edge batch (n2v_walk_length self))
       (\<lambda>(pos_traces, edge_ids).
     bind (mapM (tensor_index (edata_length (n2v_g self))) (concat edge_ids)) (\<lambda>lens.
     bind (view_rows (n2v_walk_length self) lens) (\<lambda>pos_dists.
     bind (rolling_window (nat (n2v_walk_length self) + 1) (n2v_window_size self) pos_traces)
       (\<lambda>pos_traces.
     bind (rolling_window (nat (n2v_walk_length self)) (n2v_window_size self - 1) pos_dists)
       (\<lambda>pos_dists.
     bind (repeat (n2v_num_negatives self) batch) (\<lambda>neg_batch.
     bind (randint rng (n2v_N self) (length neg_batch) (n2v_walk_length self)) (\<lambda>neg_traces.
     bind (cat_column neg_batch neg_traces) (\<lambda>neg_traces.
     bind (rolling_window (nat (n2v_walk_length self) + 1) (n2v_window_size self) neg_traces)
       (\<lambda>neg_traces.
     Inr (pos_traces, pos_dists, neg_traces)))))))))))"

subsection \<open>\<open>Node2vec.loss\<close>\<close>

text \<open>\<open>self.embedding(ids)\<close>: row \<open>i\<close> of the table for \<open>0 \<le> i < N + 1\<close>, an IndexError otherwise.\<close>

definition embedding_lookup :: "real list list \<Rightarrow> int \<Rightarrow> error + real list" where
  "embedding_lookup w i =
     (if 0 \<le> i \<and> i < int (length w) then Inr (w ! nat i) else Inl IndexError)"

text \<open>\<open>trace[:, 0]\<close> and \<open>trace[:, 1:]\<close>: the first column, and the rest of every row.\<close>

definition first_column :: "'a list list \<Rightarrow> error + 'a list" where
  "first_column t = mapM (\<lambda>row. case row of [] \<Rightarrow> Inl IndexError | x # _ \<Rightarrow> Inr x) t"

text \<open>
  Lines 150--153 and 157--161: look up the start node and the rest of every row, multiply
  the start vector into every vector of the rest and sum over the last dimension.
\<close>

definition trace_out :: "real list list \<Rightarrow> int list list \<Rightarrow> error + real list list" where
  "trace_out w trace =
     bind (first_column trace) (\<lambda>start.
     bind (mapM (embedding_lookup w) start) (\<lambda>w_start.
     bind (mapM (mapM (embedding_lookup w)) (map tl trace)) (\<lambda>w_rest.
     Inr (map2 (\<lambda>s vs. map (\<lambda>v. sum_list (map2 (*) s v)) vs) w_start w_rest))))"

text \<open>Line 165, one entry: \<open>(sigmoid(out) - c / (c + dist)) ** 2\<close>.\<close>

definition pos_entry :: "real \<Rightarrow> real \<Rightarrow> real \<Rightarrow> error + real" where
  "pos_entry c out d = bind (dist_measure c d) (\<lambda>t. Inr ((sigmoid out - t)\<^sup>2))"

text \<open>
  Line 169, one entry: \<open>log(1 - sigmoid(out) + e)\<close>; the \<open>e = 1e-15\<close> of line 146 is
  \<open>loss_e\<close>.
\<close>

definition loss_e :: real where
  "loss_e = 1 / 10 ^ 15"

definition neg_entry :: "real \<Rightarrow> error + real" where
  "neg_entry out = float_log (1 - sigmoid out + loss_e)"

text \<open>
  \<open>Node2vec.loss\<close> (lines 136--171). The first component of the result is what line 147
  prints: the rows of \<open>pos_trace\<close> that contain \<open>-1\<close>. The second is the returned loss.
  \<^verbatim>\<open>
  e = 1e-15
  print(pos_trace[(pos_trace == -1).any(axis=1)])
  pos_start, pos_rest = pos_trace[:, 0], pos_trace[:, 1:].contiguous()
  w_start = self.embedding(pos_start).unsqueeze(dim=1)
  w_rest = self.embedding(pos_rest)
  pos_out = (w_start * w_rest).sum(dim=-1)
  neg_start, neg_rest = neg_trace[:, 0], neg_trace[:, 1:].contiguous()
  w_start = self.embedding(neg_start).unsqueeze(dim=1)
  w_rest = self.embedding(neg_rest)
  neg_out = (w_start * w_rest).sum(dim=-1)
  pos_loss = torch.pow(torch.sigmoid(pos_out) - torch.div(self.c, self.c + pos_dists), 2).mean()
  neg_loss = -torch.log(1 - torch.sigmoid(neg_out) + e).mean()
  return pos_loss + neg_loss
  \<close>
\<close>

definition loss ::
  "node2vec \<Rightarrow> int list list \<Rightarrow> real list list \<Rightarrow> int list list
     \<Rightarrow> int list list \<times> (error + real)" where
  "loss self pos_trace pos_dists neg_trace =
     (filter (\<lambda>row. list_ex (\<lambda>x. x = - 1) row) pos_trace,
      bind (trace_out (n2v_embedding self) pos_trace) (\<lambda>pos_out.
      bind (trace_out (n2v_embedding self) neg_trace) (\<lambda>neg_out.
      bind (broadcast (broadcast (pos_entry (n2v_c self))) pos_out pos_dists) (\<lambda>sq.
      bind (mean (concat sq)) (\<lambda>pos_loss.
      bind (mapM (mapM neg_entry) neg_out) (\<lambda>lg.
      bind (mean (concat lg)) (\<lambda>m.
      Inr (pos_loss + (- m)))))))))"

section \<open>The trainer \<open>Node2vecModel\<close>\<close>

text \<open>
  \<open>Node2vecModel.train\<close> (lines 284--317), as the sequence of what it does per epoch.
  The optimiser's arithmetic is not modelled: an epoch's \<open>_train_step\<close>, the evaluation
  probe \<open>_evaluate_step\<close>, the print of the loss alone, and \<open>scheduler.step()\<close> are
  events, each tagged with the loop variable \<open>i\<close>.
  \<^verbatim>\<open>
  for i in range(epochs):
      loss = self._train_step(self.model, loader, optimizer, self.device, c_optimizer)
      if self.eval_steps > 0:
          if epochs % self.eval_steps == 0:
              if self.eval_set is not None:
                  acc = self._evaluate_step()
                  print("Epoch: {}, Train Loss: {:.4f}, Val Acc: {:.4f}".format(i + 1, loss, acc))
              else:
                  print("Epoch: {}, Train Loss: {:.4f}".format(i + 1, loss))
      scheduler.step()
  \<close>
\<close>

datatype event = TrainStep nat | EvaluateStep nat | PrintLoss nat | SchedulerStep nat

definition train_epoch :: "int \<Rightarrow> int \<Rightarrow> bool \<Rightarrow> nat \<Rightarrow> event list" where
  "train_epoch epochs eval_steps has_eval_set i =
     [TrainStep i] @
     (if eval_steps > 0 then
        (if epochs mod eval_steps = 0 then
           (if has_eval_set then [EvaluateStep i] else [PrintLoss i])
         else [])
      else []) @
     [SchedulerStep i]"

fun train_loop :: "int \<Rightarrow> int \<Rightarrow> bool \<Rightarrow> nat \<Rightarrow> nat \<Rightarrow> event list" where
  "train_loop epochs eval_steps has_eval_set i 0 = []"
| "train_loop epochs eval_steps has_eval_set i (Suc k) =
     train_epoch epochs eval_steps has_eval_set i
       @ train_loop epochs eval_steps has_eval_set (Suc i) k"

definition train :: "int \<Rightarrow> int \<Rightarrow> bool \<Rightarrow> event list" where
  "train epochs eval_steps has_eval_set =
     train_loop epochs eval_steps has_eval_set 0 (nat epochs)"

text \<open>The values of \<open>i\<close> at which the evaluation probe ran.\<close>

fun probe_epochs :: "event list \<Rightarrow> nat list" where
  "probe_epochs [] = []"
| "probe_epochs (EvaluateStep i # evs) = i # probe_epochs evs"
| "probe_epochs (_ # evs) = probe_epochs evs"

section \<open>Notions used in the statements\<close>

text \<open>The windows of \<open>n\<close> consecutive entries of a list, one per starting position.\<close>

definition windows :: "nat \<Rightarrow> 'a list \<Rightarrow> 'a list list" where
  "windows n xs = map (\<lambda>j. take n (drop j xs)) [0 ..< length xs - n + 1]"

text \<open>
  What \<open>g.edata['length'][i]\<close> reads for an index in range, and the indices in range.
\<close>

definition edge_length :: "graph \<Rightarrow> int \<Rightarrow> real" where
  "edge_length g i =
     (if 0 \<le> i then edata_length g ! nat i
      else edata_length g ! nat (int (length (edata_length g)) + i))"

definition valid_edge_id :: "graph \<Rightarrow> int \<Rightarrow> bool" where
  "valid_edge_id g i =
     (- int (length (edata_length g)) \<le> i \<and> i < int (length (edata_length g)))"

text \<open>
  The node sequence of walk \<open>r\<close>, the lengths of the edges it walked, row \<open>r\<close> of the
  negative traces before the rolling window, and a batch repeated \<open>n\<close> times.
\<close>

definition walk_nodes :: "(nat \<Rightarrow> nat \<Rightarrow> int) \<Rightarrow> int list \<Rightarrow> nat \<Rightarrow> nat \<Rightarrow> int list" where
  "walk_nodes walk_node batch L r = batch ! r # map (walk_node r) [0 ..< L]"

definition walk_lengths :: "graph \<Rightarrow> (nat \<Rightarrow> nat \<Rightarrow> int) \<Rightarrow> nat \<Rightarrow> nat \<Rightarrow> real list" where
  "walk_lengths g walk_edge L r = map (\<lambda>k. edge_length g (walk_edge r k)) [0 ..< L]"

definition neg_row :: "(nat \<Rightarrow> nat \<Rightarrow> nat) \<Rightarrow> nat \<Rightarrow> int list \<Rightarrow> nat \<Rightarrow> nat \<Rightarrow> int list" where
  "neg_row rng N neg_batch L r = neg_batch ! r # map (\<lambda>k. int (rng r k mod N)) [0 ..< L]"

definition tile :: "int \<Rightarrow> 'a list \<Rightarrow> 'a list" where
  "tile n xs = concat (replicate (nat n) xs)"

text \<open>
  A small configuration at which the statements below are instantiated: four nodes, three
  edges of lengths 1, 2 and 4, walks of three steps, windows of three nodes.
\<close>

definition example_model :: node2vec where
  "example_model =
     \<lparr> n2v_g = \<lparr>num_nodes = 4, edata_length = [1, 2, 4]\<rparr>, n2v_embedding_dim = 1,
       n2v_walk_length = 3, n2v_p = 1, n2v_q = 1, n2v_num_walks = 1, n2v_window_size = 3,
       n2v_num_negatives = 2, n2v_N = 4, n2v_prob = None,
       n2v_embedding = [[0], [0], [0], [0], [0]], n2v_c = 10 \<rparr>"

text \<open>
  The spec's words for the distances paired with a window (section 3): the cumulative
  edge lengths between the window's start node and each subsequent node of the window.
  For the lengths \<open>ds\<close> of the edges inside a window, entry \<open>i\<close> is the sum of the first
  \<open>i + 1\<close> of them. This definition follows the spec, not the code.
\<close>

definition spec_cumulative_dists :: "real list \<Rightarrow> real list" where
  "spec_cumulative_dists ds = map (\<lambda>i. sum_list (take (Suc i) ds)) [0 ..< length ds]"

text \<open>
  The pairs the loss is about, and the two terms the statements compare it with. The
  similarity of a pair is the sigmoid of the dot product of the two embedding rows. A
  positive window \<open>start, rest\<close> with distances \<open>ds\<close> gives the pairs \<open>(start, rest[i], ds[i])\<close>,
  a negative trace the pairs \<open>(start, rest[i])\<close>. The positive term is the mean over the
  positive pairs of the squared difference between similarity and target \<open>c / (c + d)\<close>;
  the negative term is the mean over the negative pairs of \<open>- log(1 - similarity + e)\<close>.
\<close>

definition pair_similarity :: "real list list \<Rightarrow> int \<Rightarrow> int \<Rightarrow> real" where
  "pair_similarity w s v = sigmoid (dot (w ! nat s) (w ! nat v))"

definition pos_pairs :: "int list list \<Rightarrow> real list list \<Rightarrow> (int \<times> int \<times> real) list" where
  "pos_pairs pos_trace pos_dists =
     concat (map2 (\<lambda>row ds. map2 (\<lambda>v d. (hd row, v, d)) (tl row) ds) pos_trace pos_dists)"

definition neg_pairs :: "int list list \<Rightarrow> (int \<times> int) list" where
  "neg_pairs neg_trace = concat (map (\<lambda>row. map (\<lambda>v. (hd row, v)) (tl row)) neg_trace)"

definition pos_term :: "real list list \<Rightarrow> real \<Rightarrow> int list list \<Rightarrow> real list list \<Rightarrow> real" where
  "pos_term w c pos_trace pos_dists =
     (\<Sum>(s, v, d) \<leftarrow> pos_pairs pos_trace pos_dists. (pair_similarity w s v - c / (c + d))\<^sup>2)
       / real (length (pos_pairs pos_trace pos_dists))"

definition neg_term :: "real list list \<Rightarrow> int list list \<Rightarrow> real" where
  "neg_term w neg_trace =
     (\<Sum>(s, v) \<leftarrow> neg_pairs neg_trace. - ln (1 - pair_similarity w s v + loss_e))
       / real (length (neg_pairs neg_trace))"

text \<open>
  The negative term in the words of the spec (section 4.4), which applies the sigmoid to
  the similarity: \<open>- log(1 - sigmoid(similarity) + e)\<close> averaged over the pairs, and the
  total as the unweighted sum with the positive term. These two definitions follow the
  spec, not the code.
\<close>

definition spec_neg_term :: "real list list \<Rightarrow> int list list \<Rightarrow> real" where
  "spec_neg_term w neg_trace =
     (\<Sum>(s, v) \<leftarrow> neg_pairs neg_trace. - ln (1 - sigmoid (pair_similarity w s v) + loss_e))
       / real (length (neg_pairs neg_trace))"

definition spec_loss ::
  "real list list \<Rightarrow> real \<Rightarrow> int list list \<Rightarrow> real list list \<Rightarrow> int list list \<Rightarrow> real" where
  "spec_loss w c pos_trace pos_dists neg_trace =
     pos_term w c pos_trace pos_dists + spec_neg_term w neg_trace"

text \<open>
  The traces and distances on which the loss is a number: every row of a trace starts
  with a node and holds ids of rows of the embedding table; the distances have the shape
  of the rest of the positive windows; no distance is \<open>- c\<close>.
\<close>

definition ids_in_table :: "real list list \<Rightarrow> int list list \<Rightarrow> bool" where
  "ids_in_table w trace =
     list_all (\<lambda>row. row \<noteq> [] \<and> list_all (\<lambda>x. 0 \<le> x \<and> x < int (length w)) row) trace"

definition dists_fit :: "int list list \<Rightarrow> real list list \<Rightarrow> bool" where
  "dists_fit pos_trace pos_dists =
     (length pos_dists = length pos_trace
      \<and> list_all (\<lambda>(row, ds). length ds = length (tl row)) (zip pos_trace pos_dists))"

definition dists_finite :: "real \<Rightarrow> real list list \<Rightarrow> bool" where
  "dists_finite c pos_dists = list_all (list_all (\<lambda>d. c + d \<noteq> 0)) pos_dists"

section \<open>Properties of the decoder\<close>

lemma sigmoid_less_one: "sigmoid x < 1"
  by (simp add: sigmoid_def add_pos_pos)

lemma sigmoid_zero: "sigmoid 0 = 1 / 2"
  by (simp add: sigmoid_def)

lemma decode_distance_cases:
  "decode_distance c s = Inr (if s = 0 then 0 else c * (1 - s) / s)"
  by (simp add: decode_distance_def float_div_def)

text \<open>
  C6. For every distance \<open>d \<ge> 0\<close> and constant \<open>c > 0\<close> the target similarity
  \<open>c / (c + d)\<close> exists, lies in \<open>(0, 1]\<close>, and the inverse mapping
  \<open>s \<mapsto> c * (1 - s) / s\<close> of the heuristic takes it back to exactly \<open>d\<close>; at \<open>d = 0\<close>
  the similarity is \<open>1\<close> and its inverse is \<open>0\<close>.
\<close>

theorem decoder_round_trip:
  assumes "0 \<le> d" and "0 < c"
  shows "\<exists>s. dist_measure c d = Inr s \<and> 0 < s \<and> s \<le> 1 \<and> s = c / (c + d)
           \<and> decode_distance c s = Inr d
           \<and> dist_measure c 0 = Inr 1 \<and> decode_distance c 1 = Inr 0"
proof -
  let ?s = "c / (c + d)"
  from assms have cd: "0 < c + d" by simp
  then have m: "dist_measure c d = Inr ?s"
    by (simp add: dist_measure_def)
  from assms cd have s0: "0 < ?s" by simp
  from assms cd have s1: "?s \<le> 1" by (simp add: divide_le_eq)
  have one: "1 - ?s = d / (c + d)"
    using cd by (simp add: field_simps)
  have "(d / (c + d)) / ?s = d / c"
    using cd by simp
  with one have "(1 - ?s) / ?s = d / c"
    by simp
  then have "c * ((1 - ?s) / ?s) = d"
    using assms by simp
  then have e: "c * (1 - ?s) / ?s = d"
    by simp
  from s0 have nz: "?s \<noteq> 0"
    by (rule less_imp_neq [THEN not_sym])
  have "decode_distance c ?s = Inr (c * (1 - ?s) / ?s)"
    unfolding decode_distance_cases using nz by (simp only: if_False)
  with e have inv: "decode_distance c ?s = Inr d"
    by (simp only:)
  from assms have z: "dist_measure c 0 = Inr 1"
    by (simp add: dist_measure_def)
  have o: "decode_distance c 1 = Inr 0"
    by (simp add: decode_distance_cases)
  from m s0 s1 inv z o show ?thesis by blast
qed

theorem decoder_round_trip_witness:
  "dist_measure 10 30 = Inr (1 / 4) \<and> decode_distance 10 (1 / 4) = Inr 30
     \<and> dist_measure 10 0 = Inr 1 \<and> decode_distance 10 1 = Inr 0"
proof -
  have d: "(0::real) \<le> 30" and c: "(0::real) < 10" by simp_all
  from decoder_round_trip [OF d c] obtain s where
    s: "dist_measure 10 30 = Inr s" "s = 10 / (10 + 30)" "decode_distance 10 s = Inr 30"
      "dist_measure 10 0 = Inr 1" "decode_distance 10 1 = Inr 0"
    by blast
  from s(2) have "s = 1 / 4" by simp
  with s show ?thesis by simp
qed

text \<open>
  C8. The claim is that the heuristic always returns a value \<open>\<ge> 0\<close>. Whatever the
  constant, the dictionary, the embedding and the two nodes are, the call raises an
  AttributeError at \<open>np.sigmoid\<close> and returns no value.
\<close>

theorem dot_heuristic_raises:
  "dot_heuristic init_c node_to_idx embedding x y = Inl AttributeError"
  by (simp add: dot_heuristic_def np_sigmoid_def bind_def)

section \<open>Properties of the tensor operations and of \<open>sample\<close>\<close>

lemma bind_Inr [simp]: "bind (Inr x) f = f x"
  by (simp add: bind_def)

lemma bind_Inl [simp]: "bind (Inl x) f = Inl x"
  by (simp add: bind_def)

lemma bind_eq_Inr: "bind m f = Inr y \<longleftrightarrow> (\<exists>x. m = Inr x \<and> f x = Inr y)"
  by (cases m) simp_all

lemma mapM_Inr:
  "(\<And>x. x \<in> set xs \<Longrightarrow> f x = Inr (g x)) \<Longrightarrow> mapM f xs = Inr (map g xs)"
  by (induction xs) simp_all

lemma unfold_windows:
  "n \<le> length xs \<Longrightarrow> unfold (int n) 1 xs = Inr (windows n xs)"
  by (simp add: unfold_def windows_def)

lemma length_windows: "length (windows n xs) = length xs - n + 1"
  by (simp add: windows_def)

lemma windows_nth:
  "j < length xs - n + 1 \<Longrightarrow> windows n xs ! j = take n (drop j xs)"
  unfolding windows_def using nth_map_upt [of j "length xs - n + 1" 0]
  by (simp del: upt_Suc)

lemma windows_length_elem:
  assumes "n \<le> length xs" and "w \<in> set (windows n xs)"
  shows "length w = n"
  using assms by (auto simp: windows_def)

lemma chunks_Nil [simp]: "chunks n [] = []"
  by (simp add: chunks.simps)

lemma chunks_append_row:
  assumes "0 < n" and "length w = n"
  shows "chunks n (w @ rest) = w # chunks n rest"
  using assms by (subst chunks.simps) auto

lemma chunks_concat_rows:
  assumes "0 < n" and "\<And>w. w \<in> set ws \<Longrightarrow> length w = n"
  shows "chunks n (concat ws) = ws"
  using assms(2)
proof (induction ws)
  case Nil
  then show ?case by simp
next
  case (Cons w ws)
  then show ?case
    using \<open>0 < n\<close> by (simp add: chunks_append_row)
qed

lemma length_concat_rows:
  assumes "\<And>w. w \<in> set ws \<Longrightarrow> length w = n"
  shows "length (concat ws) = length ws * n"
  using assms by (induction ws) simp_all

lemma view_rows_concat:
  assumes "0 < n" and "\<And>w. w \<in> set ws \<Longrightarrow> length w = n"
  shows "view_rows (int n) (concat ws) = Inr ws"
  using assms by (simp add: view_rows_def chunks_concat_rows length_concat_rows)

lemma rolling_window_windows:
  assumes n: "0 < n" and le: "n \<le> ncols"
    and rows: "\<And>row. row \<in> set rows \<Longrightarrow> length row = ncols"
  shows "rolling_window ncols (int n) rows = Inr (concat (map (windows n) rows))"
proof -
  have "mapM (unfold (int n) 1) rows = Inr (map (windows n) rows)"
    using rows le by (intro mapM_Inr) (simp add: unfold_windows del: One_nat_def)
  moreover have "view_rows (int n) (concat (concat (map (windows n) rows)))
      = Inr (concat (map (windows n) rows))"
  proof (rule view_rows_concat [OF n])
    fix w assume "w \<in> set (concat (map (windows n) rows))"
    then obtain row where "row \<in> set rows" "w \<in> set (windows n row)" by auto
    with rows [of row] le show "length w = n"
      using windows_length_elem [of n row w] by simp
  qed
  ultimately show ?thesis
    using le by (simp add: rolling_window_def)
qed

lemma concat_uniform_nth:
  assumes "\<And>x. x \<in> set xss \<Longrightarrow> length x = n" and "r < length xss" and "j < n"
  shows "concat xss ! (r * n + j) = xss ! r ! j"
  using assms
proof (induction xss arbitrary: r)
  case Nil
  then show ?case by simp
next
  case (Cons x xss)
  show ?case
  proof (cases r)
    case 0
    with Cons.prems show ?thesis by (simp add: nth_append)
  next
    case (Suc r')
    with Cons.prems have "concat xss ! (r' * n + j) = xss ! r' ! j"
      by (intro Cons.IH) auto
    with Suc Cons.prems show ?thesis
      by (simp add: nth_append)
  qed
qed

lemma tensor_index_valid:
  "valid_edge_id g i \<Longrightarrow> tensor_index (edata_length g) i = Inr (edge_length g i)"
  by (auto simp: valid_edge_id_def tensor_index_def edge_length_def Let_def)

lemma repeat_tile: "0 \<le> n \<Longrightarrow> repeat n xs = Inr (tile n xs)"
  by (simp add: repeat_def tile_def)

lemma map_concat_rows:
  "map f (concat (map (\<lambda>r. map (g r) ks) rs)) = concat (map (\<lambda>r. map (\<lambda>k. f (g r k)) ks) rs)"
  by (induction rs) simp_all

lemma sample_result:
  fixes self :: node2vec and seeds :: "int list"
  defines "W \<equiv> nat (n2v_window_size self)" and "L \<equiv> nat (n2v_walk_length self)"
  defines "batch \<equiv> tile (n2v_num_walks self) seeds"
  defines "neg_batch \<equiv> tile (n2v_num_negatives self) batch"
  assumes nw: "0 \<le> n2v_num_walks self" and nn: "0 \<le> n2v_num_negatives self"
    and W2: "2 \<le> n2v_window_size self"
    and WL: "n2v_window_size self \<le> n2v_walk_length self"
    and N: "0 < n2v_N self"
    and edges: "\<And>r k. r < length batch \<Longrightarrow> k < L \<Longrightarrow> valid_edge_id (n2v_g self) (walk_edge r k)"
  shows "sample self walk_node walk_edge rng seeds =
     Inr (concat (map (\<lambda>r. windows W (walk_nodes walk_node batch L r)) [0 ..< length batch]),
          concat (map (\<lambda>r. windows (W - 1) (walk_lengths (n2v_g self) walk_edge L r))
                    [0 ..< length batch]),
          concat (map (\<lambda>r. windows W (neg_row rng (nat (n2v_N self)) neg_batch L r))
                    [0 ..< length neg_batch]))"
proof -
  let ?g = "n2v_g self"
  have Wpos: "0 < W" "W \<le> L + 1" "0 < W - 1" "W - 1 \<le> L" "0 < L"
    and iW: "n2v_window_size self = int W" "n2v_window_size self - 1 = int (W - 1)"
    and iL: "n2v_walk_length self = int L"
    using W2 WL by (simp_all add: W_def L_def)
  have s1: "repeat (n2v_num_walks self) seeds = Inr batch"
    using nw by (simp add: repeat_tile batch_def)
  have s2: "node2vec_random_walk walk_node walk_edge batch (n2v_walk_length self) =
      Inr (map (walk_nodes walk_node batch L) [0 ..< length batch],
           map (\<lambda>r. map (walk_edge r) [0 ..< L]) [0 ..< length batch])"
    using WL W2 by (simp add: node2vec_random_walk_def walk_nodes_def L_def)
  have s3: "mapM (tensor_index (edata_length ?g))
        (concat (map (\<lambda>r. map (walk_edge r) [0 ..< L]) [0 ..< length batch])) =
      Inr (concat (map (walk_lengths ?g walk_edge L) [0 ..< length batch]))"
  proof -
    have "mapM (tensor_index (edata_length ?g))
        (concat (map (\<lambda>r. map (walk_edge r) [0 ..< L]) [0 ..< length batch])) =
      Inr (map (edge_length ?g)
        (concat (map (\<lambda>r. map (walk_edge r) [0 ..< L]) [0 ..< length batch])))"
      using edges by (intro mapM_Inr tensor_index_valid) auto
    then show ?thesis
      by (simp add: map_concat_rows walk_lengths_def [abs_def])
  qed
  have s4: "view_rows (n2v_walk_length self)
        (concat (map (walk_lengths ?g walk_edge L) [0 ..< length batch])) =
      Inr (map (walk_lengths ?g walk_edge L) [0 ..< length batch])"
    unfolding iL using Wpos(5)
    by (rule view_rows_concat) (auto simp: walk_lengths_def)
  have s5: "rolling_window (L + 1) (n2v_window_size self)
        (map (walk_nodes walk_node batch L) [0 ..< length batch]) =
      Inr (concat (map (windows W) (map (walk_nodes walk_node batch L) [0 ..< length batch])))"
    unfolding iW(1) using Wpos(1,2)
    by (rule rolling_window_windows) (auto simp: walk_nodes_def)
  have s6: "rolling_window L (n2v_window_size self - 1)
        (map (walk_lengths ?g walk_edge L) [0 ..< length batch]) =
      Inr (concat (map (windows (W - 1))
        (map (walk_lengths ?g walk_edge L) [0 ..< length batch])))"
    unfolding iW(2) using Wpos(3,4)
    by (rule rolling_window_windows) (auto simp: walk_lengths_def)
  have s7: "repeat (n2v_num_negatives self) batch = Inr neg_batch"
    using nn by (simp add: repeat_tile neg_batch_def)
  have s8: "randint rng (n2v_N self) (length neg_batch) (n2v_walk_length self) =
      Inr (map (\<lambda>r. map (\<lambda>k. int (rng r k mod nat (n2v_N self))) [0 ..< L])
             [0 ..< length neg_batch])"
    using N WL W2 by (simp add: randint_def L_def)
  have s9: "cat_column neg_batch
        (map (\<lambda>r. map (\<lambda>k. int (rng r k mod nat (n2v_N self))) [0 ..< L])
             [0 ..< length neg_batch]) =
      Inr (map (neg_row rng (nat (n2v_N self)) neg_batch L) [0 ..< length neg_batch])"
    by (auto simp: cat_column_def neg_row_def intro!: nth_equalityI)
  have s10: "rolling_window (L + 1) (n2v_window_size self)
        (map (neg_row rng (nat (n2v_N self)) neg_batch L) [0 ..< length neg_batch]) =
      Inr (concat (map (windows W)
        (map (neg_row rng (nat (n2v_N self)) neg_batch L) [0 ..< length neg_batch])))"
    unfolding iW(1) using Wpos(1,2)
    by (rule rolling_window_windows) (auto simp: neg_row_def)
  show ?thesis
    unfolding sample_def s1 bind_Inr s2 prod.case s3 s4 L_def [symmetric] s5 s6 s7 s8 s9 s10
    by (simp add: comp_def)
qed

lemma example_sample_A:
  "sample example_model (\<lambda>r k. int k + 1) (\<lambda>r k. int (k mod 3)) (\<lambda>r k. r + k) [0] =
     Inr ([[0, 1, 2], [1, 2, 3]], [[1, 2], [2, 4]],
          [[0, 0, 1], [0, 1, 2], [0, 1, 2], [1, 2, 3]])"
  by code_simp

lemma length_windows_blocks:
  assumes "\<And>r. r < R \<Longrightarrow> length (row r) = n"
  shows "length (concat (map (\<lambda>r. windows W (row r)) [0 ..< R])) = R * (n - W + 1)"
proof -
  have "length (concat (map (\<lambda>r. windows W (row r)) [0 ..< R]))
      = length (map (\<lambda>r. windows W (row r)) [0 ..< R]) * (n - W + 1)"
    using assms by (intro length_concat_rows) (auto simp: length_windows)
  then show ?thesis by simp
qed

lemma windows_blocks_nth:
  assumes "\<And>r. r < R \<Longrightarrow> length (row r) = n" and "r < R" and "j < n - W + 1"
  shows "concat (map (\<lambda>r. windows W (row r)) [0 ..< R]) ! (r * (n - W + 1) + j)
      = take W (drop j (row r))"
proof -
  have "concat (map (\<lambda>r. windows W (row r)) [0 ..< R]) ! (r * (n - W + 1) + j)
      = map (\<lambda>r. windows W (row r)) [0 ..< R] ! r ! j"
    using assms by (intro concat_uniform_nth) (auto simp: length_windows)
  also have "\<dots> = windows W (row r) ! j"
    using assms(2) by simp
  also have "\<dots> = take W (drop j (row r))"
    using assms by (simp add: windows_nth)
  finally show ?thesis .
qed

lemma window_is_contiguous:
  "xs = take j xs @ take W (drop j xs) @ drop (j + W) xs"
  by (metis append_take_drop_id drop_drop add.commute)

text \<open>
  C7. With a valid configuration (\<open>2 \<le> window_size \<le> walk_length\<close>, counts that are not
  negative, at least one node, edge ids that index \<open>g.edata['length']\<close>) \<open>sample\<close> returns.
  The node sequence of every walk has \<open>walk_length + 1\<close> entries, the seed included;
  a walk of that length \<open>L'\<close> gives exactly \<open>L' - W + 1\<close> windows, the window at offset
  \<open>j\<close> of walk \<open>r\<close> is the \<open>W\<close> consecutive nodes of the walk from position \<open>j\<close> on, in
  the walk's order: the walk is what precedes the window, the window, and what follows.
\<close>

theorem sample_windowing_invariant:
  fixes self :: node2vec and seeds :: "int list" and walk_node :: "nat \<Rightarrow> nat \<Rightarrow> int"
  defines "W \<equiv> nat (n2v_window_size self)" and "L \<equiv> nat (n2v_walk_length self)"
  defines "batch \<equiv> tile (n2v_num_walks self) seeds"
  defines "walk \<equiv> walk_nodes walk_node batch L"
  assumes nw: "0 \<le> n2v_num_walks self" and nn: "0 \<le> n2v_num_negatives self"
    and W2: "2 \<le> n2v_window_size self"
    and WL: "n2v_window_size self \<le> n2v_walk_length self"
    and N: "0 < n2v_N self"
    and edges: "\<And>r k. r < length batch \<Longrightarrow> k < L \<Longrightarrow> valid_edge_id (n2v_g self) (walk_edge r k)"
  shows "\<exists>pos dists neg. sample self walk_node walk_edge rng seeds = Inr (pos, dists, neg)
     \<and> length pos = length batch * (L + 1 - W + 1)
     \<and> (\<forall>r < length batch. \<forall>j < L + 1 - W + 1.
          length (walk r) = L + 1
          \<and> pos ! (r * (L + 1 - W + 1) + j) = take W (drop j (walk r))
          \<and> length (pos ! (r * (L + 1 - W + 1) + j)) = W
          \<and> walk r = take j (walk r) @ pos ! (r * (L + 1 - W + 1) + j) @ drop (j + W) (walk r))"
proof -
  let ?pos = "concat (map (\<lambda>r. windows W (walk r)) [0 ..< length batch])"
  have len: "length (walk r) = L + 1" for r
    by (simp add: walk_def walk_nodes_def)
  have WL': "W \<le> L + 1"
    using W2 WL by (simp add: W_def L_def)
  from sample_result [of self seeds walk_edge walk_node rng, OF nw nn W2 WL N]
    edges [unfolded batch_def L_def]
  obtain dists neg where s: "sample self walk_node walk_edge rng seeds = Inr (?pos, dists, neg)"
    unfolding W_def L_def batch_def walk_def by blast
  have l: "length ?pos = length batch * (L + 1 - W + 1)"
    using len by (intro length_windows_blocks) simp
  have w: "?pos ! (r * (L + 1 - W + 1) + j) = take W (drop j (walk r))"
    if "r < length batch" "j < L + 1 - W + 1" for r j
    using len that by (intro windows_blocks_nth) simp_all
  have t: "length (take W (drop j (walk r))) = W" if "j < L + 1 - W + 1" for r j
    using that WL' len [of r] by simp
  show ?thesis
  proof (rule exI [of _ ?pos], rule exI [of _ dists], rule exI [of _ neg],
      intro conjI allI impI)
    show "sample self walk_node walk_edge rng seeds = Inr (?pos, dists, neg)"
      by (rule s)
    show "length ?pos = length batch * (L + 1 - W + 1)"
      by (rule l)
  next
    fix r j assume "r < length batch" "j < L + 1 - W + 1"
    then show "length (walk r) = L + 1"
      by (simp only: len)
  next
    fix r j assume "r < length batch" "j < L + 1 - W + 1"
    then show "?pos ! (r * (L + 1 - W + 1) + j) = take W (drop j (walk r))"
      by (rule w)
  next
    fix r j assume "r < length batch" "j < L + 1 - W + 1"
    then show "length (?pos ! (r * (L + 1 - W + 1) + j)) = W"
      by (simp only: w t)
  next
    fix r j assume "r < length batch" "j < L + 1 - W + 1"
    then have "?pos ! (r * (L + 1 - W + 1) + j) = take W (drop j (walk r))"
      by (rule w)
    then show "walk r = take j (walk r) @ ?pos ! (r * (L + 1 - W + 1) + j)
        @ drop (j + W) (walk r)"
      using window_is_contiguous [of "walk r" j W] by (simp only:)
  qed
qed


theorem sample_windowing_invariant_witness:
  "\<exists>pos dists neg.
     sample example_model (\<lambda>r k. int k + 1) (\<lambda>r k. int (k mod 3)) (\<lambda>r k. r + k) [0]
       = Inr (pos, dists, neg)
     \<and> length pos = 2 \<and> pos ! 1 = [1, 2, 3]"
proof -
  have h: "0 \<le> n2v_num_walks example_model" "0 \<le> n2v_num_negatives example_model"
    "2 \<le> n2v_window_size example_model"
    "n2v_window_size example_model \<le> n2v_walk_length example_model"
    "0 < n2v_N example_model"
    by (simp_all add: example_model_def)
  have e: "valid_edge_id (n2v_g example_model) (int (k mod 3))" for k
    by (simp add: example_model_def valid_edge_id_def)
  from sample_windowing_invariant [where self = example_model and seeds = "[0]"
      and walk_node = "\<lambda>r k. int k + 1" and walk_edge = "\<lambda>r k. int (k mod 3)"
      and rng = "\<lambda>r k. r + k", OF h e]
  obtain pos dists neg where
    s: "sample example_model (\<lambda>r k. int k + 1) (\<lambda>r k. int (k mod 3)) (\<lambda>r k. r + k) [0]
          = Inr (pos, dists, neg)"
    and l: "length pos = length (tile (n2v_num_walks example_model) [0::int])
          * (nat (n2v_walk_length example_model) + 1 - nat (n2v_window_size example_model) + 1)"
    and w: "\<forall>r < length (tile (n2v_num_walks example_model) [0::int]).
       \<forall>j < nat (n2v_walk_length example_model) + 1 - nat (n2v_window_size example_model) + 1.
         pos ! (r * (nat (n2v_walk_length example_model) + 1
                  - nat (n2v_window_size example_model) + 1) + j)
           = take (nat (n2v_window_size example_model))
               (drop j (walk_nodes (\<lambda>r k. int k + 1) (tile (n2v_num_walks example_model) [0::int])
                  (nat (n2v_walk_length example_model)) r))"
    by blast
  from l have l': "length pos = 2"
    by (simp add: example_model_def tile_def)
  from w [rule_format, of 0 1] have "pos ! 1 = [1, 2, 3]"
    by (simp add: example_model_def tile_def walk_nodes_def eval_nat_numeral)
  with s l' show ?thesis by blast
qed

lemma length_tile: "length (tile n xs) = nat n * length xs"
  by (simp add: tile_def length_concat sum_list_replicate)

text \<open>
  C5, as stated: the number of negative windows equals the number of positive windows.
  With \<open>num_negatives = 2\<close> one seed gives two positive and four negative windows.
\<close>

theorem sample_parity_counterexample:
  "\<exists>pos dists neg.
     sample example_model (\<lambda>r k. int k + 1) (\<lambda>r k. int (k mod 3)) (\<lambda>r k. r + k) [0]
       = Inr (pos, dists, neg)
     \<and> length pos = 2 \<and> length neg = 4"
  by (simp add: example_sample_A)

text \<open>
  C5, amended. With a valid configuration \<open>sample\<close> returns. The batch of the negatives is
  the repeated batch repeated \<open>num_negatives\<close> times; row \<open>r\<close> of the negatives is its
  start id followed by \<open>walk_length\<close> random ids below \<open>N\<close>, and the negative traces are
  the windows of size \<open>W\<close> of these rows, rolled as the positive ones are. The number of
  negative windows is \<open>num_negatives\<close> times the number of positive windows.
\<close>

theorem sample_negative_traces:
  fixes self :: node2vec and seeds :: "int list" and rng :: "nat \<Rightarrow> nat \<Rightarrow> nat"
  defines "W \<equiv> nat (n2v_window_size self)" and "L \<equiv> nat (n2v_walk_length self)"
  defines "batch \<equiv> tile (n2v_num_walks self) seeds"
  defines "neg_batch \<equiv> tile (n2v_num_negatives self) batch"
  defines "row \<equiv> \<lambda>r. neg_batch ! r # map (\<lambda>k. int (rng r k mod nat (n2v_N self))) [0 ..< L]"
  assumes nw: "0 \<le> n2v_num_walks self" and nn: "0 \<le> n2v_num_negatives self"
    and W2: "2 \<le> n2v_window_size self"
    and WL: "n2v_window_size self \<le> n2v_walk_length self"
    and N: "0 < n2v_N self"
    and edges: "\<And>r k. r < length batch \<Longrightarrow> k < L \<Longrightarrow> valid_edge_id (n2v_g self) (walk_edge r k)"
  shows "\<exists>pos dists neg. sample self walk_node walk_edge rng seeds = Inr (pos, dists, neg)
     \<and> neg = concat (map (\<lambda>r. windows W (row r)) [0 ..< length neg_batch])
     \<and> length neg_batch = nat (n2v_num_negatives self) * length batch
     \<and> length pos = length batch * (L + 1 - W + 1)
     \<and> length neg = length neg_batch * (L + 1 - W + 1)
     \<and> length neg = nat (n2v_num_negatives self) * length pos"
proof -
  let ?neg = "concat (map (\<lambda>r. windows W (row r)) [0 ..< length neg_batch])"
  let ?pos = "concat (map (\<lambda>r. windows W (walk_nodes walk_node batch L r)) [0 ..< length batch])"
  have row: "row = neg_row rng (nat (n2v_N self)) neg_batch L"
    by (simp add: row_def neg_row_def fun_eq_iff)
  from sample_result [of self seeds walk_edge walk_node rng, OF nw nn W2 WL N]
    edges [unfolded batch_def L_def]
  obtain dists where s: "sample self walk_node walk_edge rng seeds = Inr (?pos, dists, ?neg)"
    unfolding W_def L_def batch_def neg_batch_def row by blast
  have lp: "length ?pos = length batch * (L + 1 - W + 1)"
    by (intro length_windows_blocks) (simp add: walk_nodes_def)
  have ln: "length ?neg = length neg_batch * (L + 1 - W + 1)"
    by (intro length_windows_blocks) (simp add: row_def)
  have lb: "length neg_batch = nat (n2v_num_negatives self) * length batch"
    by (simp add: neg_batch_def length_tile)
  from lp ln lb have par: "length ?neg = nat (n2v_num_negatives self) * length ?pos"
    by (simp only: mult.assoc)
  from s lp ln lb par show ?thesis
    by blast
qed

theorem sample_negative_traces_witness:
  "\<exists>pos dists neg.
     sample example_model (\<lambda>r k. int k + 1) (\<lambda>r k. int (k mod 3)) (\<lambda>r k. r + k) [0]
       = Inr (pos, dists, neg)
     \<and> neg = [[0, 0, 1], [0, 1, 2], [0, 1, 2], [1, 2, 3]] \<and> length neg = 2 * length pos"
proof -
  have h: "0 \<le> n2v_num_walks example_model" "0 \<le> n2v_num_negatives example_model"
    "2 \<le> n2v_window_size example_model"
    "n2v_window_size example_model \<le> n2v_walk_length example_model"
    "0 < n2v_N example_model"
    by (simp_all add: example_model_def)
  have e: "valid_edge_id (n2v_g example_model) (int (k mod 3))" for k
    by (simp add: example_model_def valid_edge_id_def)
  from sample_negative_traces [where self = example_model and seeds = "[0]"
      and walk_node = "\<lambda>r k. int k + 1" and walk_edge = "\<lambda>r k. int (k mod 3)"
      and rng = "\<lambda>r k. r + k", OF h e]
  obtain pos dists neg where
    s: "sample example_model (\<lambda>r k. int k + 1) (\<lambda>r k. int (k mod 3)) (\<lambda>r k. r + k) [0]
          = Inr (pos, dists, neg)"
    and l: "length neg = nat (n2v_num_negatives example_model) * length pos"
    by blast
  from s have "neg = [[0, 0, 1], [0, 1, 2], [0, 1, 2], [1, 2, 3]]"
    by (auto simp: example_sample_A)
  moreover from l have "length neg = 2 * length pos"
    by (simp add: example_model_def)
  ultimately show ?thesis using s by blast
qed


lemma concat_chunks: "0 < n \<Longrightarrow> concat (chunks n xs) = xs"
proof (induction n xs rule: chunks.induct)
  case (1 n xs)
  show ?case
  proof (cases "xs = []")
    case True
    then show ?thesis by simp
  next
    case False
    with 1 have "concat (chunks n (drop n xs)) = drop n xs"
      by simp
    with False 1(2) show ?thesis
      by (subst chunks.simps) simp
  qed
qed

lemma mapM_Inr_elem:
  "mapM f xs = Inr ys \<Longrightarrow> y \<in> set ys \<Longrightarrow> \<exists>x \<in> set xs. f x = Inr y"
proof (induction xs arbitrary: ys)
  case Nil
  then show ?case by simp
next
  case (Cons a xs)
  then show ?case
    by (auto split: sum.splits)
qed

lemma unfold_elems:
  assumes "unfold sz step xs = Inr ws" and "w \<in> set ws" and "x \<in> set w"
  shows "x \<in> set xs"
proof -
  from assms(1,2) obtain j where "w = take (nat sz) (drop (j * step) xs)"
    by (auto simp: unfold_def split: if_splits)
  with assms(3) show ?thesis
    by (auto dest: in_set_takeD in_set_dropD)
qed

lemma rolling_window_elems:
  assumes rw: "rolling_window ncols sz rows = Inr ws" and w: "w \<in> set ws" and x: "x \<in> set w"
  shows "\<exists>row \<in> set rows. x \<in> set row"
proof -
  from rw obtain ws3 where m: "mapM (unfold sz 1) rows = Inr ws3"
    and v: "view_rows sz (concat (concat ws3)) = Inr ws"
    by (auto simp: rolling_window_def bind_eq_Inr split: if_splits)
  from v have pos: "0 < nat sz" and ws: "ws = chunks (nat sz) (concat (concat ws3))"
    by (auto simp: view_rows_def split: if_splits)
  from ws pos have "concat ws = concat (concat ws3)"
    by (simp add: concat_chunks)
  with w x have "x \<in> set (concat (concat ws3))"
    by (metis UN_I set_concat)
  then obtain u v where u: "u \<in> set ws3" and v': "v \<in> set u" and xv: "x \<in> set v"
    by auto
  from mapM_Inr_elem [OF m u] obtain row where row: "row \<in> set rows" "unfold sz 1 row = Inr u"
    by blast
  from unfold_elems [OF row(2) v' xv] row(1) show ?thesis
    by blast
qed

lemma repeat_elems: "repeat n xs = Inr ys \<Longrightarrow> set ys \<subseteq> set xs"
  by (auto simp: repeat_def split: if_splits)

lemma randint_elems:
  assumes "randint rng high nrows ncols = Inr m" and "row \<in> set m" and "x \<in> set row"
  shows "0 \<le> x \<and> x < high"
proof -
  from assms obtain r k where h: "0 < high" and x: "x = int (rng r k mod nat high)"
    by (auto simp: randint_def split: if_splits)
  from h have "rng r k mod nat high < nat high"
    by simp
  then have "int (rng r k mod nat high) < high"
    by (simp only: zless_nat_eq_int_zless)
  with x show ?thesis by simp
qed

lemma cat_column_elems:
  assumes "cat_column col m = Inr t" and "row \<in> set t" and "x \<in> set row"
  shows "x \<in> set col \<or> (\<exists>r \<in> set m. x \<in> set r)"
proof -
  from assms(1) have t: "t = map2 (#) col m"
    by (auto simp: cat_column_def split: if_splits)
  with assms(2) obtain c r where "(c, r) \<in> set (zip col m)" "row = c # r"
    by auto
  with assms(3) show ?thesis
    by (auto dest: set_zip_leftD set_zip_rightD)
qed

text \<open>
  C10. Whenever \<open>sample\<close> returns for seeds that are node ids (\<open>0 \<le> x < N\<close>), every id
  in every negative trace is a node id: it is at least \<open>0\<close> and below \<open>N\<close>, so it is
  never the padding id \<open>N\<close>.
\<close>

theorem sample_negative_ids_in_range:
  assumes s: "sample self walk_node walk_edge rng seeds = Inr (pos, dists, neg)"
    and seeds: "\<forall>x \<in> set seeds. 0 \<le> x \<and> x < n2v_N self"
  shows "\<forall>row \<in> set neg. \<forall>x \<in> set row. 0 \<le> x \<and> x < n2v_N self \<and> x \<noteq> n2v_N self"
proof (intro ballI)
  fix row x assume row: "row \<in> set neg" and x: "x \<in> set row"
  from s obtain batch neg_batch rnd neg_traces where
    b: "repeat (n2v_num_walks self) seeds = Inr batch"
    and nb: "repeat (n2v_num_negatives self) batch = Inr neg_batch"
    and r: "randint rng (n2v_N self) (length neg_batch) (n2v_walk_length self) = Inr rnd"
    and c: "cat_column neg_batch rnd = Inr neg_traces"
    and w: "rolling_window (nat (n2v_walk_length self) + 1) (n2v_window_size self) neg_traces
        = Inr neg"
    unfolding sample_def by (auto simp: bind_eq_Inr)
  from rolling_window_elems [OF w row x] obtain t where t: "t \<in> set neg_traces" "x \<in> set t"
    by blast
  from cat_column_elems [OF c t] have "x \<in> set neg_batch \<or> (\<exists>r \<in> set rnd. x \<in> set r)" .
  then have "0 \<le> x \<and> x < n2v_N self"
  proof
    assume "x \<in> set neg_batch"
    with repeat_elems [OF nb] repeat_elems [OF b] have "x \<in> set seeds" by blast
    with seeds show ?thesis by blast
  next
    assume "\<exists>r \<in> set rnd. x \<in> set r"
    with randint_elems [OF r] show ?thesis by blast
  qed
  then show "0 \<le> x \<and> x < n2v_N self \<and> x \<noteq> n2v_N self"
    by simp
qed

theorem sample_negative_ids_in_range_witness:
  "sample example_model (\<lambda>r k. int k + 1) (\<lambda>r k. int (k mod 3)) (\<lambda>r k. r + k) [0] =
     Inr ([[0, 1, 2], [1, 2, 3]], [[1, 2], [2, 4]],
          [[0, 0, 1], [0, 1, 2], [0, 1, 2], [1, 2, 3]])
   \<and> list_all (list_all (\<lambda>x. 0 \<le> x \<and> x < n2v_N example_model \<and> x \<noteq> n2v_N example_model))
        [[0, 0, 1], [0, 1, 2], [0, 1, 2], [1, 2, 3]]"
proof -
  have "\<forall>x \<in> set [0::int]. 0 \<le> x \<and> x < n2v_N example_model"
    by (simp add: example_model_def)
  from sample_negative_ids_in_range [OF example_sample_A this] example_sample_A
  show ?thesis
    by (auto simp: list_all_iff)
qed

section \<open>Properties of \<open>loss\<close>\<close>

lemma first_column_ok:
  assumes "\<And>row. row \<in> set t \<Longrightarrow> row \<noteq> []"
  shows "first_column t = Inr (map hd t)"
  unfolding first_column_def
proof (rule mapM_Inr)
  fix row assume "row \<in> set t"
  with assms have "row \<noteq> []" by blast
  then show "(case row of [] \<Rightarrow> Inl IndexError | x # _ \<Rightarrow> Inr x) = Inr (hd row)"
    by (cases row) simp_all
qed

lemma embedding_lookup_ok:
  "0 \<le> i \<Longrightarrow> i < int (length w) \<Longrightarrow> embedding_lookup w i = Inr (w ! nat i)"
  by (simp add: embedding_lookup_def)

lemma trace_out_ok:
  assumes "ids_in_table w t"
  shows "trace_out w t =
     Inr (map (\<lambda>row. map (\<lambda>v. dot (w ! nat (hd row)) (w ! nat v)) (tl row)) t)"
proof -
  from assms have ne: "row \<noteq> []" and ok: "\<And>x. x \<in> set row \<Longrightarrow> 0 \<le> x \<and> x < int (length w)"
    if "row \<in> set t" for row
    using that by (auto simp: ids_in_table_def list_all_iff)
  have f: "first_column t = Inr (map hd t)"
    using ne by (rule first_column_ok)
  have s: "mapM (embedding_lookup w) (map hd t) = Inr (map (\<lambda>i. w ! nat i) (map hd t))"
  proof (rule mapM_Inr)
    fix i assume "i \<in> set (map hd t)"
    then obtain row where "row \<in> set t" "i = hd row" by auto
    with ne [of row] ok [of row i] show "embedding_lookup w i = Inr (w ! nat i)"
      by (simp add: embedding_lookup_ok)
  qed
  have r: "mapM (mapM (embedding_lookup w)) (map tl t)
      = Inr (map (map (\<lambda>v. w ! nat v)) (map tl t))"
  proof (rule mapM_Inr)
    fix vs assume "vs \<in> set (map tl t)"
    then obtain row where row: "row \<in> set t" "vs = tl row" by auto
    show "mapM (embedding_lookup w) vs = Inr (map (\<lambda>v. w ! nat v) vs)"
    proof (rule mapM_Inr)
      fix v assume "v \<in> set vs"
      with row ne [of row] have "v \<in> set row"
        by (auto dest: list.set_sel(2))
      with ok [OF row(1)] show "embedding_lookup w v = Inr (w ! nat v)"
        by (simp add: embedding_lookup_ok)
    qed
  qed
  show ?thesis
    unfolding trace_out_def f bind_Inr s r
    by (simp add: map2_map_map dot_def comp_def)
qed

lemma broadcast_same:
  assumes "length xs = length ys"
    and "\<And>x y. (x, y) \<in> set (zip xs ys) \<Longrightarrow> f x y = Inr (g x y)"
  shows "broadcast f xs ys = Inr (map2 g xs ys)"
proof -
  have "mapM (\<lambda>(x, y). f x y) (zip xs ys) = Inr (map (\<lambda>(x, y). g x y) (zip xs ys))"
    using assms(2) by (intro mapM_Inr) auto
  with assms(1) show ?thesis
    by (simp add: broadcast_def)
qed

lemma pos_entry_ok:
  "c + d \<noteq> 0 \<Longrightarrow> pos_entry c out d = Inr ((sigmoid out - c / (c + d))\<^sup>2)"
  by (simp add: pos_entry_def dist_measure_def)

lemma loss_e_pos: "0 < loss_e"
  by (simp add: loss_e_def)

lemma neg_entry_ok: "neg_entry out = Inr (ln (1 - sigmoid out + loss_e))"
proof -
  have "0 < 1 - sigmoid out + loss_e"
    using sigmoid_less_one [of out] loss_e_pos by simp
  then show ?thesis
    by (simp add: neg_entry_def float_log_def)
qed

lemma pos_squares_ok:
  assumes fit: "dists_fit pos dists" and fin: "dists_finite c dists"
    and len: "\<And>row. length (f row) = length (tl row)"
  shows "broadcast (broadcast (pos_entry c)) (map f pos) dists
      = Inr (map2 (map2 (\<lambda>out d. (sigmoid out - c / (c + d))\<^sup>2)) (map f pos) dists)"
proof (rule broadcast_same)
  from fit show "length (map f pos) = length dists"
    by (simp add: dists_fit_def)
next
  fix os ds assume z: "(os, ds) \<in> set (zip (map f pos) dists)"
  then obtain row where row: "(row, ds) \<in> set (zip pos dists)" "os = f row"
    by (auto simp: zip_map1)
  with fit len [of row] have l: "length os = length ds"
    by (auto simp: dists_fit_def list_all_iff)
  from z have "ds \<in> set dists"
    by (rule set_zip_rightD)
  with fin have d: "\<And>d. d \<in> set ds \<Longrightarrow> c + d \<noteq> 0"
    by (auto simp: dists_finite_def list_all_iff)
  show "broadcast (pos_entry c) os ds
      = Inr (map2 (\<lambda>out d. (sigmoid out - c / (c + d))\<^sup>2) os ds)"
  proof (rule broadcast_same [OF l])
    fix out d assume "(out, d) \<in> set (zip os ds)"
    then have "d \<in> set ds" by (rule set_zip_rightD)
    with d show "pos_entry c out d = Inr ((sigmoid out - c / (c + d))\<^sup>2)"
      by (simp add: pos_entry_ok)
  qed
qed

lemma pos_squares_pairs:
  "concat (map2 (map2 (\<lambda>out d. (sigmoid out - c / (c + d))\<^sup>2))
       (map (\<lambda>row. map (\<lambda>v. dot (w ! nat (hd row)) (w ! nat v)) (tl row)) pos) dists)
     = map (\<lambda>(s, v, d). (pair_similarity w s v - c / (c + d))\<^sup>2) (pos_pairs pos dists)"
  by (simp add: pos_pairs_def map_concat zip_map1 comp_def split_def pair_similarity_def)

lemma neg_logs_pairs:
  "concat (map (map (\<lambda>out. ln (1 - sigmoid out + loss_e)))
       (map (\<lambda>row. map (\<lambda>v. dot (w ! nat (hd row)) (w ! nat v)) (tl row)) neg))
     = map (\<lambda>(s, v). ln (1 - pair_similarity w s v + loss_e)) (neg_pairs neg)"
  by (simp add: neg_pairs_def map_concat comp_def pair_similarity_def)

lemma sum_list_neg: "(\<Sum>x\<leftarrow>xs. - f x) = - (\<Sum>x\<leftarrow>xs. (f x :: real))"
  by (induction xs) simp_all

lemma mean_ok: "xs \<noteq> [] \<Longrightarrow> mean xs = Inr (sum_list xs / real (length xs))"
  by (simp add: mean_def)

lemma loss_value:
  fixes self :: node2vec
  defines "w \<equiv> n2v_embedding self" and "c \<equiv> n2v_c self"
  assumes ip: "ids_in_table w pos" and ineg: "ids_in_table w neg"
    and fit: "dists_fit pos dists" and fin: "dists_finite c dists"
    and pne: "pos_pairs pos dists \<noteq> []" and nne: "neg_pairs neg \<noteq> []"
  shows "snd (loss self pos dists neg) = Inr (pos_term w c pos dists + neg_term w neg)"
proof -
  let ?out = "\<lambda>row. map (\<lambda>v. dot (w ! nat (hd row)) (w ! nat v)) (tl row)"
  let ?sq = "map (\<lambda>(s, v, d). (pair_similarity w s v - c / (c + d))\<^sup>2) (pos_pairs pos dists)"
  let ?lg = "map (\<lambda>(s, v). ln (1 - pair_similarity w s v + loss_e)) (neg_pairs neg)"
  have p: "trace_out w pos = Inr (map ?out pos)"
    using ip by (rule trace_out_ok)
  have n: "trace_out w neg = Inr (map ?out neg)"
    using ineg by (rule trace_out_ok)
  have b: "broadcast (broadcast (pos_entry c)) (map ?out pos) dists
      = Inr (map2 (map2 (\<lambda>out d. (sigmoid out - c / (c + d))\<^sup>2)) (map ?out pos) dists)"
    using fit fin by (rule pos_squares_ok) simp
  have m: "mapM (mapM neg_entry) (map ?out neg)
      = Inr (map (map (\<lambda>out. ln (1 - sigmoid out + loss_e))) (map ?out neg))"
    by (intro mapM_Inr neg_entry_ok)
  have mp: "mean ?sq = Inr (sum_list ?sq / real (length ?sq))"
    using pne by (intro mean_ok) simp
  have mn: "mean ?lg = Inr (sum_list ?lg / real (length ?lg))"
    using nne by (intro mean_ok) simp
  have "snd (loss self pos dists neg)
      = Inr (sum_list ?sq / real (length ?sq) + - (sum_list ?lg / real (length ?lg)))"
    unfolding loss_def snd_conv w_def [symmetric] c_def [symmetric] p n bind_Inr b m
      pos_squares_pairs neg_logs_pairs mp mn ..
  also have "sum_list ?sq / real (length ?sq) = pos_term w c pos dists"
    by (simp add: pos_term_def)
  also have "- (sum_list ?lg / real (length ?lg)) = neg_term w neg"
    by (simp add: neg_term_def split_def sum_list_neg)
  finally show ?thesis .
qed

lemma example_loss_A:
  "snd (loss example_model [[0, 1]] [[10]] [[0, 1]]) = Inr (- ln (1 / 2 + loss_e))"
  by (simp add: loss_def trace_out_def first_column_def embedding_lookup_def example_model_def
      broadcast_def pos_entry_def dist_measure_def mean_def neg_entry_ok sigmoid_zero)

lemma example_loss_B:
  "snd (loss example_model [[0, 1], [0, 4]] [[10], [0]] [[0, 1]])
     = Inr (1 / 8 - ln (1 / 2 + loss_e))"
  by (simp add: loss_def trace_out_def first_column_def embedding_lookup_def example_model_def
      broadcast_def pos_entry_def dist_measure_def mean_def neg_entry_ok sigmoid_zero
      power2_eq_square)

lemma example_loss_C:
  "loss example_model [[0, 1], [0, - 1]] [[10], [0]] [[0, 1]] = ([[0, - 1]], Inl IndexError)"
  by (simp add: loss_def trace_out_def first_column_def embedding_lookup_def example_model_def)

lemma sigmoid_half: "1 / 2 < sigmoid (1 / 2)"
proof -
  have "exp (- (1 / 2 :: real)) < 1"
    by simp
  then have "1 + exp (- (1 / 2 :: real)) < 2"
    by simp
  moreover have "0 < 1 + exp (- (1 / 2 :: real))"
    by (simp add: add_pos_pos)
  ultimately have "1 / 2 < 1 / (1 + exp (- (1 / 2 :: real)))"
    by (simp add: field_simps)
  then show ?thesis
    by (simp add: sigmoid_def)
qed

lemma example_spec_loss:
  "spec_loss (n2v_embedding example_model) (n2v_c example_model) [[0, 1]] [[10]] [[0, 1]]
     = - ln (1 - sigmoid (1 / 2) + loss_e)"
  by (simp add: spec_loss_def pos_term_def spec_neg_term_def pos_pairs_def neg_pairs_def
      pair_similarity_def dot_def example_model_def sigmoid_zero)

text \<open>
  C4, as stated: the similarity of a pair is the sigmoid of the dot product, and the
  negative term is \<open>- log(1 - sigmoid(similarity) + e)\<close>. With all embeddings zero the
  similarity of the one negative pair is \<open>1 / 2\<close>; the code returns
  \<open>- ln (1 / 2 + e)\<close>, the stated formula gives \<open>- ln (1 - sigmoid (1 / 2) + e)\<close>, and
  the two differ.
\<close>

theorem loss_double_sigmoid_counterexample:
  "snd (loss example_model [[0, 1]] [[10]] [[0, 1]]) = Inr (- ln (1 / 2 + loss_e))
   \<and> spec_loss (n2v_embedding example_model) (n2v_c example_model) [[0, 1]] [[10]] [[0, 1]]
       = - ln (1 - sigmoid (1 / 2) + loss_e)
   \<and> snd (loss example_model [[0, 1]] [[10]] [[0, 1]])
       \<noteq> Inr (spec_loss (n2v_embedding example_model) (n2v_c example_model)
                [[0, 1]] [[10]] [[0, 1]])"
proof -
  have a: "0 < 1 - sigmoid (1 / 2) + loss_e"
    using sigmoid_less_one [of "1 / 2"] loss_e_pos by simp
  have b: "0 < 1 / 2 + loss_e"
    using loss_e_pos by simp
  have "1 - sigmoid (1 / 2) + loss_e < 1 / 2 + loss_e"
    using sigmoid_half by simp
  with a have "ln (1 - sigmoid (1 / 2) + loss_e) < ln (1 / 2 + loss_e)"
    by (simp only: ln_less_cancel_iff [OF a b])
  then have "- ln (1 / 2 + loss_e) \<noteq> - ln (1 - sigmoid (1 / 2) + loss_e)"
    by simp
  then show ?thesis
    by (simp only: example_loss_A example_spec_loss sum.inject simp_thms)
qed

text \<open>
  C4, amended. On traces whose ids are rows of the table, with distances of the shape of
  the windows, none of them \<open>- c\<close>, and at least one positive and one negative pair,
  the loss is a number: the mean over the positive pairs of
  \<open>(sigmoid(dot) - c / (c + d))\<^sup>2\<close> plus the mean over the negative pairs of
  \<open>- ln (1 - sigmoid(dot) + 1e-15)\<close>, where \<open>dot\<close> is the dot product of the embeddings
  of the start and of the other node. The sigmoid is applied once, to the dot product;
  the two terms are added with no weight.
\<close>

theorem loss_is_sum_of_terms:
  fixes self :: node2vec
  defines "w \<equiv> n2v_embedding self" and "c \<equiv> n2v_c self"
  assumes ip: "ids_in_table w pos" and ineg: "ids_in_table w neg"
    and fit: "dists_fit pos dists" and fin: "dists_finite c dists"
    and pne: "pos_pairs pos dists \<noteq> []" and nne: "neg_pairs neg \<noteq> []"
  shows "snd (loss self pos dists neg) =
     Inr ((\<Sum>(s, v, d) \<leftarrow> pos_pairs pos dists.
             (sigmoid (dot (w ! nat s) (w ! nat v)) - c / (c + d))\<^sup>2)
            / real (length (pos_pairs pos dists))
          + (\<Sum>(s, v) \<leftarrow> neg_pairs neg.
             - ln (1 - sigmoid (dot (w ! nat s) (w ! nat v)) + 1 / 10 ^ 15))
            / real (length (neg_pairs neg)))"
  using loss_value [of self pos neg dists] assms
  by (simp add: pos_term_def neg_term_def pair_similarity_def loss_e_def)

theorem loss_is_sum_of_terms_witness:
  "snd (loss example_model [[0, 1], [0, 4]] [[10], [0]] [[0, 1]]) =
     Inr (((1 / 2 - 10 / (10 + 10))\<^sup>2 + (1 / 2 - 10 / (10 + 0))\<^sup>2) / 2
          + (- ln (1 - 1 / 2 + 1 / 10 ^ 15)) / 1)"
proof -
  have h: "ids_in_table (n2v_embedding example_model) [[0, 1], [0, 4]]"
    "ids_in_table (n2v_embedding example_model) [[0, 1]]"
    "dists_fit [[0, 1], [0, 4]] [[10], [0]]"
    "dists_finite (n2v_c example_model) [[10], [0]]"
    "pos_pairs [[0, 1], [0, 4]] [[10], [0]] \<noteq> []"
    "neg_pairs [[0, 1]] \<noteq> []"
    by (simp_all add: ids_in_table_def dists_fit_def dists_finite_def pos_pairs_def
        neg_pairs_def example_model_def)
  from loss_is_sum_of_terms [OF h] show ?thesis
    by (simp add: pos_pairs_def neg_pairs_def example_model_def dot_def sigmoid_zero)
qed

lemma length_pos_pairs:
  assumes "dists_fit pos dists"
  shows "length (pos_pairs pos dists) = (\<Sum>row\<leftarrow>pos. length row - 1)"
proof -
  from assms have "list_all2 (\<lambda>row ds. length ds = length (tl row)) pos dists"
    by (auto simp: dists_fit_def list_all2_iff list_all_iff)
  then show ?thesis
    by (induction rule: list_all2_induct) (simp_all add: pos_pairs_def)
qed

lemma pos_pairs_cover:
  assumes fit: "dists_fit pos dists" and row: "row \<in> set pos" and v: "v \<in> set (tl row)"
  shows "\<exists>d. (hd row, v, d) \<in> set (pos_pairs pos dists)"
proof -
  from row obtain k where k: "k < length pos" "pos ! k = row"
    by (auto simp: in_set_conv_nth)
  from v obtain i where i: "i < length (tl row)" "tl row ! i = v"
    by (auto simp: in_set_conv_nth)
  from fit k have kd: "k < length dists" and z: "(row, dists ! k) \<in> set (zip pos dists)"
    by (auto simp: dists_fit_def in_set_zip)
  with fit have l: "length (dists ! k) = length (tl row)"
    by (auto simp: dists_fit_def list_all_iff)
  with i have "(v, dists ! k ! i) \<in> set (zip (tl row) (dists ! k))"
    by (auto simp: in_set_zip)
  then have "(hd row, v, dists ! k ! i)
      \<in> set (map2 (\<lambda>v d. (hd row, v, d)) (tl row) (dists ! k))"
    by force
  with z have "(hd row, v, dists ! k ! i) \<in> set (pos_pairs pos dists)"
    unfolding pos_pairs_def set_concat by force
  then show ?thesis ..
qed

lemma mapM_Inl_elem:
  "mapM f xs = Inl err \<Longrightarrow> \<exists>x \<in> set xs. f x = Inl err"
  by (induction xs) (auto split: sum.splits)

lemma mapM_Inr_all:
  "mapM f xs = Inr ys \<Longrightarrow> x \<in> set xs \<Longrightarrow> \<exists>y. f x = Inr y"
proof (induction xs arbitrary: ys)
  case Nil
  then show ?case by simp
next
  case (Cons a xs)
  then show ?case
    by (auto split: sum.splits)
qed

lemma embedding_lookup_Inl: "embedding_lookup w i = Inl err \<Longrightarrow> err = IndexError"
  by (simp add: embedding_lookup_def split: if_splits)

lemma embedding_lookup_Inr: "embedding_lookup w i = Inr v \<Longrightarrow> 0 \<le> i \<and> i < int (length w)"
  by (simp add: embedding_lookup_def split: if_splits)

lemma first_column_Inl:
  assumes "first_column t = Inl err"
  shows "err = IndexError"
proof -
  from mapM_Inl_elem [OF assms [unfolded first_column_def]] obtain row where
    "row \<in> set t" "(case row of [] \<Rightarrow> Inl IndexError | x # _ \<Rightarrow> Inr x) = Inl err"
    by blast
  from this(2) show ?thesis
    by (cases row) simp_all
qed

lemma first_column_Inr:
  assumes "first_column t = Inr start"
  shows "start = map hd t \<and> (\<forall>row \<in> set t. row \<noteq> [])"
proof -
  have ne: "row \<noteq> []" if "row \<in> set t" for row
    using mapM_Inr_all [OF assms [unfolded first_column_def] that]
    by (auto split: list.splits)
  then have "first_column t = Inr (map hd t)"
    by (intro first_column_ok) simp
  with assms ne show ?thesis by simp
qed

lemma trace_out_Inl:
  assumes "trace_out w t = Inl err"
  shows "err = IndexError"
proof (cases "first_column t")
  case (Inl a)
  with assms show ?thesis
    by (auto simp: trace_out_def dest: first_column_Inl)
next
  case (Inr start)
  show ?thesis
  proof (cases "mapM (embedding_lookup w) start")
    case (Inl a)
    with assms Inr have "a = err"
      by (simp add: trace_out_def)
    with Inl have "mapM (embedding_lookup w) start = Inl err"
      by simp
    from mapM_Inl_elem [OF this] show ?thesis
      by (blast dest: embedding_lookup_Inl)
  next
    case s: (Inr w_start)
    from assms Inr s have "mapM (mapM (embedding_lookup w)) (map tl t) = Inl err"
      by (auto simp: trace_out_def bind_def split: sum.splits)
    from mapM_Inl_elem [OF this] obtain vs where "mapM (embedding_lookup w) vs = Inl err"
      by blast
    from mapM_Inl_elem [OF this] show ?thesis
      by (blast dest: embedding_lookup_Inl)
  qed
qed

lemma trace_out_Inr:
  assumes "trace_out w t = Inr out"
  shows "ids_in_table w t"
proof -
  from assms obtain start w_start w_rest where
    f: "first_column t = Inr start"
    and s: "mapM (embedding_lookup w) start = Inr w_start"
    and r: "mapM (mapM (embedding_lookup w)) (map tl t) = Inr w_rest"
    by (auto simp: trace_out_def bind_eq_Inr)
  from first_column_Inr [OF f] have st: "start = map hd t" and ne: "\<And>row. row \<in> set t \<Longrightarrow> row \<noteq> []"
    by simp_all
  have "0 \<le> x \<and> x < int (length w)" if row: "row \<in> set t" and x: "x \<in> set row" for row x
  proof -
    from ne [OF row] x have "x = hd row \<or> x \<in> set (tl row)"
      by (cases row) auto
    then show ?thesis
    proof
      assume "x = hd row"
      with row st have "x \<in> set start" by simp
      from mapM_Inr_all [OF s this] show ?thesis
        by (auto dest: embedding_lookup_Inr)
    next
      assume xt: "x \<in> set (tl row)"
      from row have "tl row \<in> set (map tl t)" by simp
      from mapM_Inr_all [OF r this] obtain vs where "mapM (embedding_lookup w) (tl row) = Inr vs"
        by blast
      from mapM_Inr_all [OF this xt] show ?thesis
        by (auto dest: embedding_lookup_Inr)
    qed
  qed
  with ne show ?thesis
    by (auto simp: ids_in_table_def list_all_iff)
qed

lemma loss_outside_table:
  assumes "\<not> ids_in_table (n2v_embedding self) pos"
  shows "snd (loss self pos dists neg) = Inl IndexError"
proof (cases "trace_out (n2v_embedding self) pos")
  case (Inl err)
  with trace_out_Inl [OF Inl] show ?thesis
    by (simp add: loss_def)
next
  case (Inr out)
  from trace_out_Inr [OF Inr] assms show ?thesis
    by simp
qed

lemma padded_row_outside_table:
  assumes "row \<in> set pos" and "- 1 \<in> set row"
  shows "\<not> ids_in_table w pos"
proof
  assume "ids_in_table w pos"
  with assms(1) have "\<forall>x \<in> set row. 0 \<le> x"
    by (simp add: ids_in_table_def list_all_iff)
  then have "(0::int) \<le> - 1"
    using assms(2) by (rule bspec)
  then show False by simp
qed

text \<open>
  C2, as stated: a row of the positive trace that contains the padding id is found and
  left out of the loss, which is then unaffected by it. With a second row \<open>0, -1\<close>, the
  padding of a walk that is stuck, the row is printed and the loss is an IndexError,
  where without the row it is a number. With a second row \<open>0, N\<close> that holds the reserved
  id \<open>N\<close> the row is not printed and the loss is \<open>1 / 8\<close> more than without it.
\<close>

theorem loss_keeps_padded_rows_counterexample:
  "snd (loss example_model [[0, 1]] [[10]] [[0, 1]]) = Inr (- ln (1 / 2 + loss_e))
   \<and> snd (loss example_model [[0, 1], [0, n2v_N example_model]] [[10], [0]] [[0, 1]])
       = Inr (1 / 8 - ln (1 / 2 + loss_e))
   \<and> fst (loss example_model [[0, 1], [0, n2v_N example_model]] [[10], [0]] [[0, 1]]) = []
   \<and> loss example_model [[0, 1], [0, - 1]] [[10], [0]] [[0, 1]] = ([[0, - 1]], Inl IndexError)"
proof -
  have n: "n2v_N example_model = 4"
    by (simp add: example_model_def)
  have "fst (loss example_model [[0, 1], [0, 4]] [[10], [0]] [[0, 1]]) = []"
    by (simp add: loss_def)
  with example_loss_A example_loss_B example_loss_C show ?thesis
    unfolding n by (simp only: simp_thms)
qed

text \<open>
  C2, amended. The loss prints the rows of the positive trace that contain the padding
  \<open>-1\<close> and leaves no row out. Whenever the positive trace has a row that contains \<open>-1\<close>,
  the lookup of that id in the embedding table fails and the loss is an IndexError, not
  a value. On traces whose ids are all rows of the table, with distances of the shape of
  the windows, the returned value is the positive term over the pairs of all rows plus
  the negative term: every row contributes its \<open>length - 1\<close> pairs, and every pair of a
  start with a later node of its row is among the pairs averaged.
\<close>

theorem loss_keeps_every_row:
  fixes self :: node2vec
  defines "w \<equiv> n2v_embedding self" and "c \<equiv> n2v_c self"
  shows "fst (loss self pos dists neg) = filter (\<lambda>row. - 1 \<in> set row) pos
     \<and> ((\<exists>row \<in> set pos. - 1 \<in> set row) \<longrightarrow> snd (loss self pos dists neg) = Inl IndexError)
     \<and> (ids_in_table w pos \<and> ids_in_table w neg \<and> dists_fit pos dists \<and> dists_finite c dists
          \<and> pos_pairs pos dists \<noteq> [] \<and> neg_pairs neg \<noteq> [] \<longrightarrow>
        snd (loss self pos dists neg) = Inr (pos_term w c pos dists + neg_term w neg)
        \<and> length (pos_pairs pos dists) = (\<Sum>row\<leftarrow>pos. length row - 1)
        \<and> (\<forall>row \<in> set pos. \<forall>v \<in> set (tl row).
              \<exists>d. (hd row, v, d) \<in> set (pos_pairs pos dists)))"
proof (intro conjI impI ballI)
  show "fst (loss self pos dists neg) = filter (\<lambda>row. - 1 \<in> set row) pos"
    by (simp add: loss_def list_ex_iff cong: filter_cong)
next
  assume "\<exists>row \<in> set pos. - 1 \<in> set row"
  then have "\<not> ids_in_table (n2v_embedding self) pos"
    by (auto dest: padded_row_outside_table)
  then show "snd (loss self pos dists neg) = Inl IndexError"
    by (rule loss_outside_table)
next
  assume h: "ids_in_table w pos \<and> ids_in_table w neg \<and> dists_fit pos dists
      \<and> dists_finite c dists \<and> pos_pairs pos dists \<noteq> [] \<and> neg_pairs neg \<noteq> []"
  then show "snd (loss self pos dists neg) = Inr (pos_term w c pos dists + neg_term w neg)"
    unfolding w_def c_def by (intro loss_value) simp_all
  from h show "length (pos_pairs pos dists) = (\<Sum>row\<leftarrow>pos. length row - 1)"
    by (intro length_pos_pairs) simp
next
  fix row v
  assume h: "ids_in_table w pos \<and> ids_in_table w neg \<and> dists_fit pos dists
      \<and> dists_finite c dists \<and> pos_pairs pos dists \<noteq> [] \<and> neg_pairs neg \<noteq> []"
    and "row \<in> set pos" "v \<in> set (tl row)"
  then show "\<exists>d. (hd row, v, d) \<in> set (pos_pairs pos dists)"
    by (intro pos_pairs_cover) simp_all
qed

theorem loss_keeps_every_row_witness:
  "loss example_model [[0, 1], [0, - 1]] [[10], [0]] [[0, 1]] = ([[0, - 1]], Inl IndexError)
   \<and> snd (loss example_model [[0, 1], [0, 4]] [[10], [0]] [[0, 1]])
     = Inr (pos_term (n2v_embedding example_model) (n2v_c example_model)
              [[0, 1], [0, 4]] [[10], [0]]
            + neg_term (n2v_embedding example_model) [[0, 1]])
   \<and> length (pos_pairs [[0, 1], [0, 4]] [[10], [0]]) = 2
   \<and> (\<exists>d. (0, 4, d) \<in> set (pos_pairs [[0, 1], [0, 4]] [[10], [0]]))"
proof -
  have h: "ids_in_table (n2v_embedding example_model) [[0, 1], [0, 4]]
    \<and> ids_in_table (n2v_embedding example_model) [[0, 1]]
    \<and> dists_fit [[0, 1], [0, 4]] [[10], [0]]
    \<and> dists_finite (n2v_c example_model) [[10], [0]]
    \<and> pos_pairs [[0, 1], [0, 4]] [[10], [0]] \<noteq> []
    \<and> neg_pairs [[0, 1]] \<noteq> []"
    by (simp add: ids_in_table_def dists_fit_def dists_finite_def pos_pairs_def
        neg_pairs_def example_model_def)
  have p: "\<exists>row \<in> set [[0, 1], [0, - 1 :: int]]. - 1 \<in> set row"
    by simp
  from loss_keeps_every_row [of example_model "[[0, 1], [0, - 1]]" "[[10], [0]]" "[[0, 1]]"] p
  have a: "fst (loss example_model [[0, 1], [0, - 1]] [[10], [0]] [[0, 1]]) = [[0, - 1]]"
    and b: "snd (loss example_model [[0, 1], [0, - 1]] [[10], [0]] [[0, 1]]) = Inl IndexError"
    by simp_all
  from a b have ab: "loss example_model [[0, 1], [0, - 1]] [[10], [0]] [[0, 1]]
      = ([[0, - 1]], Inl IndexError)"
    by (simp add: prod_eq_iff)
  from loss_keeps_every_row [of example_model "[[0, 1], [0, 4]]" "[[10], [0]]" "[[0, 1]]"] h
  have "snd (loss example_model [[0, 1], [0, 4]] [[10], [0]] [[0, 1]])
     = Inr (pos_term (n2v_embedding example_model) (n2v_c example_model)
              [[0, 1], [0, 4]] [[10], [0]]
            + neg_term (n2v_embedding example_model) [[0, 1]])
   \<and> length (pos_pairs [[0, 1], [0, 4]] [[10], [0]]) = 2
   \<and> (\<exists>d. (0, 4, d) \<in> set (pos_pairs [[0, 1], [0, 4]] [[10], [0]]))"
    by simp
  with ab show ?thesis by simp
qed

section \<open>The distances of a window, from \<open>sample\<close> to \<open>loss\<close>\<close>

text \<open>
  C1, as stated: the distances paired with a positive window are the cumulative edge
  lengths from the window's start. For the walk \<open>0, 1, 2, 3\<close> over edges of lengths
  \<open>1, 2, 4\<close> and windows of three nodes, the window \<open>0, 1, 2\<close> is paired with \<open>[1, 2]\<close>,
  the lengths of its two edges, where the cumulative lengths are \<open>[1, 3]\<close>; the target
  of the pair \<open>(0, 2)\<close> is \<open>10 / (10 + 2)\<close> and not \<open>10 / (10 + 3)\<close>.
\<close>

theorem sample_dists_counterexample:
  "sample example_model (\<lambda>r k. int k + 1) (\<lambda>r k. int (k mod 3)) (\<lambda>r k. r + k) [0] =
     Inr ([[0, 1, 2], [1, 2, 3]], [[1, 2], [2, 4]],
          [[0, 0, 1], [0, 1, 2], [0, 1, 2], [1, 2, 3]])
   \<and> walk_lengths (n2v_g example_model) (\<lambda>r k. int (k mod 3)) 3 0 = [1, 2, 4]
   \<and> spec_cumulative_dists [1, 2] = [1, 3]
   \<and> dist_measure (n2v_c example_model) 2 = Inr (5 / 6)
   \<and> dist_measure (n2v_c example_model) 3 = Inr (10 / 13)"
proof -
  have a: "walk_lengths (n2v_g example_model) (\<lambda>r k. int (k mod 3)) 3 0 = [1, 2, 4]"
    by code_simp
  have b: "spec_cumulative_dists [1, 2] = [1, 3]"
    by code_simp
  have c: "dist_measure (n2v_c example_model) 2 = Inr (5 / 6)"
    "dist_measure (n2v_c example_model) 3 = Inr (10 / 13)"
    by (simp_all add: dist_measure_def example_model_def)
  from example_sample_A a b c show ?thesis
    by (simp only: simp_thms)
qed

lemma pair_block_nth:
  "i < length (tl row) \<Longrightarrow> i < length ds \<Longrightarrow>
     map2 (\<lambda>v d. (hd row, v, d)) (tl row) ds ! i = (hd row, tl row ! i, ds ! i)"
  by simp

text \<open>
  C1, amended. With a valid configuration \<open>sample\<close> returns as many distance rows as
  positive windows. The window at offset \<open>j\<close> of walk \<open>r\<close> is paired with \<open>W - 1\<close>
  entries; entry \<open>i\<close> is \<open>g.edata['length']\<close> read at the edge id the walk recorded for
  its step \<open>j + i\<close>, the step from node \<open>i\<close> to node \<open>i + 1\<close> of the window. Where that
  step was walked (the recorded id is an edge id, \<open>\<ge> 0\<close>) the entry is the length of that
  one edge; it is never a sum of lengths. The pairs the loss is taken over are, in
  order, \<open>(start, rest[i], entry i)\<close> of every window. Whenever the ids of the returned
  traces are rows of the embedding table, no entry is \<open>- c\<close> and there is a positive and
  a negative pair, the loss of the returned traces is a number whose positive term is
  the mean over these pairs of \<open>(sigmoid(dot) - c / (c + entry))\<^sup>2\<close>: the target of the
  pair \<open>(start, rest[i])\<close> is \<open>c / (c + entry i)\<close>.
\<close>

theorem sample_window_distances:
  fixes self :: node2vec and seeds :: "int list" and walk_node walk_edge :: "nat \<Rightarrow> nat \<Rightarrow> int"
  defines "W \<equiv> nat (n2v_window_size self)" and "L \<equiv> nat (n2v_walk_length self)"
  defines "batch \<equiv> tile (n2v_num_walks self) seeds"
  defines "walk \<equiv> walk_nodes walk_node batch L"
  defines "len \<equiv> \<lambda>r k. edge_length (n2v_g self) (walk_edge r k)"
  defines "nwin \<equiv> L + 2 - W"
  defines "w \<equiv> n2v_embedding self" and "c \<equiv> n2v_c self"
  assumes nw: "0 \<le> n2v_num_walks self" and nn: "0 \<le> n2v_num_negatives self"
    and W2: "2 \<le> n2v_window_size self"
    and WL: "n2v_window_size self \<le> n2v_walk_length self"
    and N: "0 < n2v_N self"
    and edges: "\<And>r k. r < length batch \<Longrightarrow> k < L \<Longrightarrow> valid_edge_id (n2v_g self) (walk_edge r k)"
  shows "\<exists>pos dists neg. sample self walk_node walk_edge rng seeds = Inr (pos, dists, neg)
     \<and> length pos = length batch * nwin \<and> length dists = length pos
     \<and> (\<forall>r < length batch. \<forall>j < nwin.
          pos ! (r * nwin + j) = take W (drop j (walk r))
          \<and> dists ! (r * nwin + j) = map (len r) [j ..< j + (W - 1)]
          \<and> length (dists ! (r * nwin + j)) = W - 1
          \<and> (\<forall>i < W - 1.
                pos ! (r * nwin + j) ! i = walk r ! (j + i)
              \<and> pos ! (r * nwin + j) ! Suc i = walk r ! Suc (j + i)
              \<and> dists ! (r * nwin + j) ! i = len r (j + i)
              \<and> (0 \<le> walk_edge r (j + i) \<longrightarrow>
                  dists ! (r * nwin + j) ! i
                    = edata_length (n2v_g self) ! nat (walk_edge r (j + i)))
              \<and> pos_pairs pos dists ! ((r * nwin + j) * (W - 1) + i)
                    = (walk r ! j, walk r ! Suc (j + i), len r (j + i))))
     \<and> length (pos_pairs pos dists) = length batch * nwin * (W - 1)
     \<and> (ids_in_table w pos \<and> ids_in_table w neg \<and> dists_finite c dists
          \<and> pos_pairs pos dists \<noteq> [] \<and> neg_pairs neg \<noteq> [] \<longrightarrow>
        snd (loss self pos dists neg) =
          Inr ((\<Sum>(s, v, d) \<leftarrow> pos_pairs pos dists.
                  (sigmoid (dot (w ! nat s) (w ! nat v)) - c / (c + d))\<^sup>2)
                 / real (length (pos_pairs pos dists))
               + neg_term w neg))"
proof -
  let ?pos = "concat (map (\<lambda>r. windows W (walk r)) [0 ..< length batch])"
  let ?lens = "walk_lengths (n2v_g self) walk_edge L"
  let ?dists = "concat (map (\<lambda>r. windows (W - 1) (?lens r)) [0 ..< length batch])"
  have W: "2 \<le> W" "W \<le> L"
    using W2 WL by (simp_all add: W_def L_def)
  then have nwin: "nwin = L + 1 - W + 1" "nwin = L - (W - 1) + 1"
    by (simp_all add: nwin_def)
  have lw: "length (walk r) = L + 1" and ll: "length (?lens r) = L" for r
    by (simp_all add: walk_def walk_nodes_def walk_lengths_def)
  from sample_result [of self seeds walk_edge walk_node rng, OF nw nn W2 WL N]
    edges [unfolded batch_def L_def]
  obtain neg where s: "sample self walk_node walk_edge rng seeds = Inr (?pos, ?dists, neg)"
    unfolding W_def L_def batch_def walk_def by blast
  have lp: "length ?pos = length batch * nwin"
    unfolding nwin(1) using lw by (intro length_windows_blocks) simp
  have ld: "length ?dists = length batch * nwin"
    unfolding nwin(2) using ll by (intro length_windows_blocks) simp
  have p: "?pos ! (r * nwin + j) = take W (drop j (walk r))"
    if "r < length batch" "j < nwin" for r j
    unfolding nwin(1) using lw that by (intro windows_blocks_nth) (simp_all add: nwin(1))
  have d0: "?dists ! (r * nwin + j) = take (W - 1) (drop j (?lens r))"
    if "r < length batch" "j < nwin" for r j
    unfolding nwin(2) using ll that by (intro windows_blocks_nth) (simp_all add: nwin(2))
  have td: "take (W - 1) (drop j (?lens r)) = map (len r) [j ..< j + (W - 1)]"
    if "j < nwin" for r j
  proof -
    from that W have "j + (W - 1) \<le> L"
      by (simp add: nwin_def)
    then have "take (W - 1) (drop j (map (len r) [0 ..< L])) = map (len r) [j ..< j + (W - 1)]"
      by (simp add: take_map drop_map drop_upt take_upt)
    then show ?thesis
      by (simp add: walk_lengths_def len_def)
  qed
  have d: "?dists ! (r * nwin + j) = map (len r) [j ..< j + (W - 1)]"
    if "r < length batch" "j < nwin" for r j
    using d0 [OF that] td [OF that(2)] by simp
  have pi: "take W (drop j (walk r)) ! i = walk r ! (j + i)"
    if "j < nwin" "i < W" for r j i
    using that W lw [of r] by (simp add: nwin_def)
  have rowlen: "length row = W" if "row \<in> set ?pos" for row
  proof -
    from that obtain r where "row \<in> set (windows W (walk r))" by auto
    with lw [of r] W show ?thesis
      using windows_length_elem [of W "walk r" row] by simp
  qed
  have dslen: "length ds = W - 1" if "ds \<in> set ?dists" for ds
  proof -
    from that obtain r where "ds \<in> set (windows (W - 1) (?lens r))" by auto
    with ll [of r] W show ?thesis
      using windows_length_elem [of "W - 1" "?lens r" ds] by simp
  qed
  have fit: "dists_fit ?pos ?dists"
    unfolding dists_fit_def list_all_iff
  proof (intro conjI ballI)
    show "length ?dists = length ?pos"
      by (simp only: lp ld)
  next
    fix z assume z: "z \<in> set (zip ?pos ?dists)"
    obtain row ds where zz: "z = (row, ds)" by (cases z)
    note m = z [unfolded zz]
    from set_zip_leftD [OF m] have "length row = W" by (rule rowlen)
    moreover from set_zip_rightD [OF m] have "length ds = W - 1" by (rule dslen)
    ultimately have "length ds = length (tl row)"
      by simp
    then show "case z of (row, ds) \<Rightarrow> length ds = length (tl row)"
      unfolding zz by simp
  qed
  let ?F = "\<lambda>row ds. map2 (\<lambda>v d. (hd row, v, d :: real)) (tl row) ds"
  let ?blocks = "map2 ?F ?pos ?dists"
  have pp: "pos_pairs ?pos ?dists = concat ?blocks"
    by (simp add: pos_pairs_def)
  have blen: "length b = W - 1" if "b \<in> set ?blocks" for b
  proof -
    from that have "b \<in> (\<lambda>(row, ds). ?F row ds) ` set (zip ?pos ?dists)"
      by (simp only: set_map)
    then obtain z where z: "z \<in> set (zip ?pos ?dists)" and b: "b = (case z of (row, ds) \<Rightarrow> ?F row ds)"
      by (rule imageE)
    obtain row ds where zz: "z = (row, ds)" by (cases z)
    note m = z [unfolded zz]
    from set_zip_leftD [OF m] have "length row = W" by (rule rowlen)
    moreover from set_zip_rightD [OF m] have "length ds = W - 1" by (rule dslen)
    ultimately show ?thesis
      unfolding b zz by simp
  qed
  have nblocks: "length ?blocks = length batch * nwin"
    unfolding length_map length_zip lp ld by simp
  have lpp: "length (pos_pairs ?pos ?dists) = length batch * nwin * (W - 1)"
    unfolding pp using length_concat_rows [of ?blocks "W - 1"] blen nblocks
    by simp
  have kk: "r * nwin + j < length batch * nwin" if "r < length batch" "j < nwin" for r j
  proof -
    from that have "r * nwin + j < r * nwin + nwin" by simp
    also have "\<dots> = Suc r * nwin" by simp
    also from that(1) have "\<dots> \<le> length batch * nwin"
      by (intro mult_le_mono1) simp
    finally show ?thesis .
  qed
  have ppn: "pos_pairs ?pos ?dists ! ((r * nwin + j) * (W - 1) + i)
      = (walk r ! j, walk r ! Suc (j + i), len r (j + i))"
    if a: "r < length batch" "j < nwin" "i < W - 1" for r j i
  proof -
    let ?k = "r * nwin + j"
    let ?win = "take W (drop j (walk r))"
    have k: "?k < length ?blocks"
      using kk [OF a(1,2)] nblocks by simp
    have kp: "?k < length ?pos" "?k < length ?dists"
      using kk [OF a(1,2)] lp ld by simp_all
    have wl: "length ?win = W"
      using rowlen [OF nth_mem [OF kp(1)]] unfolding p [OF a(1,2)] .
    have dl: "length (?dists ! ?k) = W - 1"
      by (rule dslen [OF nth_mem [OF kp(2)]])
    have ne: "?win \<noteq> []"
      using wl W by auto
    have "?win ! 0 = walk r ! (j + 0)"
      using W by (intro pi [OF a(2)]) simp
    then have h: "hd ?win = walk r ! j"
      by (simp add: hd_conv_nth [OF ne])
    have it: "i < length (tl ?win)"
      using wl a(3) by simp
    have "?win ! Suc i = walk r ! (j + Suc i)"
      using a(3) by (intro pi [OF a(2)]) simp
    then have t: "tl ?win ! i = walk r ! Suc (j + i)"
      by (simp add: nth_tl [OF it])
    have di: "?dists ! ?k ! i = len r (j + i)"
      unfolding d [OF a(1,2)] using a(3) by simp
    have "concat ?blocks ! (?k * (W - 1) + i) = ?blocks ! ?k ! i"
      using blen k a(3) by (intro concat_uniform_nth) simp_all
    also have "?blocks ! ?k = ?F (?pos ! ?k) (?dists ! ?k)"
      using kp by simp
    also have "\<dots> = ?F ?win (?dists ! ?k)"
      by (simp only: p [OF a(1,2)])
    also have "\<dots> ! i = (hd ?win, tl ?win ! i, ?dists ! ?k ! i)"
      using it dl a(3) by (intro pair_block_nth) simp_all
    finally show ?thesis
      by (simp only: pp h t di)
  qed
  show ?thesis
  proof (rule exI [of _ ?pos], rule exI [of _ ?dists], rule exI [of _ neg],
      intro conjI allI impI)
    show "sample self walk_node walk_edge rng seeds = Inr (?pos, ?dists, neg)"
      by (rule s)
    show "length ?pos = length batch * nwin"
      by (rule lp)
    show "length ?dists = length ?pos"
      by (simp only: lp ld)
    show "length (pos_pairs ?pos ?dists) = length batch * nwin * (W - 1)"
      by (rule lpp)
  next
    fix r j assume "r < length batch" "j < nwin"
    then show "?pos ! (r * nwin + j) = take W (drop j (walk r))"
      by (rule p)
  next
    fix r j assume "r < length batch" "j < nwin"
    then show "?dists ! (r * nwin + j) = map (len r) [j ..< j + (W - 1)]"
      by (rule d)
  next
    fix r j assume a: "r < length batch" "j < nwin"
    show "length (?dists ! (r * nwin + j)) = W - 1"
      unfolding d [OF a] by simp
  next
    fix r j i assume a: "r < length batch" "j < nwin" "i < W - 1"
    then have "i < W" by simp
    from pi [OF a(2) this] show "?pos ! (r * nwin + j) ! i = walk r ! (j + i)"
      unfolding p [OF a(1,2)] .
  next
    fix r j i assume a: "r < length batch" "j < nwin" "i < W - 1"
    then have "Suc i < W" by simp
    from pi [OF a(2) this] show "?pos ! (r * nwin + j) ! Suc i = walk r ! Suc (j + i)"
      unfolding p [OF a(1,2)] by simp
  next
    fix r j i assume a: "r < length batch" "j < nwin" "i < W - 1"
    show "?dists ! (r * nwin + j) ! i = len r (j + i)"
      unfolding d [OF a(1,2)] using a(3) by simp
  next
    fix r j i assume a: "r < length batch" "j < nwin" "i < W - 1"
      and e: "0 \<le> walk_edge r (j + i)"
    have "?dists ! (r * nwin + j) ! i = len r (j + i)"
      unfolding d [OF a(1,2)] using a(3) by simp
    also have "\<dots> = edata_length (n2v_g self) ! nat (walk_edge r (j + i))"
      using e by (simp add: len_def edge_length_def)
    finally show "?dists ! (r * nwin + j) ! i
        = edata_length (n2v_g self) ! nat (walk_edge r (j + i))" .
  next
    fix r j i assume a: "r < length batch" "j < nwin" "i < W - 1"
    then show "pos_pairs ?pos ?dists ! ((r * nwin + j) * (W - 1) + i)
        = (walk r ! j, walk r ! Suc (j + i), len r (j + i))"
      by (rule ppn)
  next
    assume h: "ids_in_table w ?pos \<and> ids_in_table w neg \<and> dists_finite c ?dists
        \<and> pos_pairs ?pos ?dists \<noteq> [] \<and> neg_pairs neg \<noteq> []"
    with fit have "snd (loss self ?pos ?dists neg)
        = Inr (pos_term w c ?pos ?dists + neg_term w neg)"
      unfolding w_def c_def by (intro loss_value) simp_all
    then show "snd (loss self ?pos ?dists neg) =
          Inr ((\<Sum>(s, v, d) \<leftarrow> pos_pairs ?pos ?dists.
                  (sigmoid (dot (w ! nat s) (w ! nat v)) - c / (c + d))\<^sup>2)
                 / real (length (pos_pairs ?pos ?dists))
               + neg_term w neg)"
      by (simp only: pos_term_def pair_similarity_def)
  qed
qed


theorem sample_window_distances_witness:
  "\<exists>pos dists neg.
     sample example_model (\<lambda>r k. int k + 1) (\<lambda>r k. int (k mod 3)) (\<lambda>r k. r + k) [0]
       = Inr (pos, dists, neg)
     \<and> pos = [[0, 1, 2], [1, 2, 3]] \<and> dists = [[1, 2], [2, 4]]
     \<and> pos_pairs pos dists = [(0, 1, 1), (0, 2, 2), (1, 2, 2), (1, 3, 4)]
     \<and> snd (loss example_model pos dists neg) =
          Inr ((\<Sum>(s, v, d) \<leftarrow> pos_pairs pos dists.
                  (sigmoid (dot (n2v_embedding example_model ! nat s)
                     (n2v_embedding example_model ! nat v))
                   - n2v_c example_model / (n2v_c example_model + d))\<^sup>2)
                 / real (length (pos_pairs pos dists))
               + neg_term (n2v_embedding example_model) neg)"
proof -
  have h: "0 \<le> n2v_num_walks example_model" "0 \<le> n2v_num_negatives example_model"
    "2 \<le> n2v_window_size example_model"
    "n2v_window_size example_model \<le> n2v_walk_length example_model"
    "0 < n2v_N example_model"
    by (simp_all add: example_model_def)
  have e: "valid_edge_id (n2v_g example_model) (int (k mod 3))" for k
    by (simp add: example_model_def valid_edge_id_def)
  from sample_window_distances [where self = example_model and seeds = "[0]"
      and walk_node = "\<lambda>r k. int k + 1" and walk_edge = "\<lambda>r k. int (k mod 3)"
      and rng = "\<lambda>r k. r + k", OF h e]
  obtain pos dists neg where
    s: "sample example_model (\<lambda>r k. int k + 1) (\<lambda>r k. int (k mod 3)) (\<lambda>r k. r + k) [0]
          = Inr (pos, dists, neg)"
    and l: "ids_in_table (n2v_embedding example_model) pos
          \<and> ids_in_table (n2v_embedding example_model) neg
          \<and> dists_finite (n2v_c example_model) dists
          \<and> pos_pairs pos dists \<noteq> [] \<and> neg_pairs neg \<noteq> [] \<longrightarrow>
        snd (loss example_model pos dists neg) =
          Inr ((\<Sum>(s, v, d) \<leftarrow> pos_pairs pos dists.
                  (sigmoid (dot (n2v_embedding example_model ! nat s)
                     (n2v_embedding example_model ! nat v))
                   - n2v_c example_model / (n2v_c example_model + d))\<^sup>2)
                 / real (length (pos_pairs pos dists))
               + neg_term (n2v_embedding example_model) neg)"
    by blast
  from s have eq: "pos = [[0, 1, 2], [1, 2, 3]]" "dists = [[1, 2], [2, 4]]"
    "neg = [[0, 0, 1], [0, 1, 2], [0, 1, 2], [1, 2, 3]]"
    by (auto simp: example_sample_A)
  have pp: "pos_pairs pos dists = [(0, 1, 1), (0, 2, 2), (1, 2, 2), (1, 3, 4)]"
    unfolding eq by (simp add: pos_pairs_def)
  have hyp: "ids_in_table (n2v_embedding example_model) pos
          \<and> ids_in_table (n2v_embedding example_model) neg
          \<and> dists_finite (n2v_c example_model) dists
          \<and> pos_pairs pos dists \<noteq> [] \<and> neg_pairs neg \<noteq> []"
    unfolding pp unfolding eq
    by (simp add: ids_in_table_def dists_finite_def neg_pairs_def example_model_def)
  from l hyp have v: "snd (loss example_model pos dists neg) =
          Inr ((\<Sum>(s, v, d) \<leftarrow> pos_pairs pos dists.
                  (sigmoid (dot (n2v_embedding example_model ! nat s)
                     (n2v_embedding example_model ! nat v))
                   - n2v_c example_model / (n2v_c example_model + d))\<^sup>2)
                 / real (length (pos_pairs pos dists))
               + neg_term (n2v_embedding example_model) neg)"
    by (rule mp)
  from s eq(1,2) pp v show ?thesis
    by blast
qed

section \<open>Properties of the trainer\<close>

lemma probe_epochs_train_epoch:
  "probe_epochs (train_epoch epochs eval_steps has i @ evs) =
      (if eval_steps > 0 \<and> epochs mod eval_steps = 0 \<and> has then i # probe_epochs evs
       else probe_epochs evs)"
  by (simp add: train_epoch_def)

text \<open>
  The test of line 310 reads \<open>epochs\<close>, the number of epochs of the whole run, and never
  the loop variable: the probe runs in every epoch or in none.
\<close>

lemma train_loop_probe:
  "probe_epochs (train_loop epochs eval_steps has i k) =
     (if eval_steps > 0 \<and> epochs mod eval_steps = 0 \<and> has then [i ..< i + k] else [])"
proof (induction k arbitrary: i)
  case 0
  then show ?case by simp
next
  case (Suc k)
  have e: "[i ..< i + Suc k] = i # [Suc i ..< Suc i + k]"
    using upt_conv_Cons [of i "Suc (i + k)"] by (simp del: upt_Suc)
  show ?case
    unfolding train_loop.simps probe_epochs_train_epoch Suc.IH e by simp
qed

text \<open>
  C3. The claim is that, with an interval of \<open>eval_steps\<close> and an evaluation set, the
  probe runs exactly in the epochs whose number is a multiple of \<open>eval_steps\<close>. With an
  interval of \<open>2\<close> the code runs the probe in all four epochs of a run of four
  (\<open>i = 0, 1, 2, 3\<close>, printed as epochs 1 to 4), and in no epoch of a run of three.
\<close>

theorem train_probe_ignores_epoch:
  "probe_epochs (train 4 2 True) = [0, 1, 2, 3] \<and> probe_epochs (train 3 2 True) = []"
  by (simp add: train_def eval_nat_numeral train_epoch_def)

section \<open>Properties of the constructor\<close>

text \<open>
  C9, as stated: an embedding dimension that is not positive makes the construction
  fail. With \<open>embedding_dim = 0\<close> and \<open>walk_length = 4 \<ge> window_size = 2\<close> the
  construction succeeds.
\<close>

theorem Node2vec_init_zero_dim:
  "\<exists>m. Node2vec_init (\<lambda>r k. 0) \<lparr>num_nodes = 2, edata_length = [1, 1]\<rparr> 0 4 1 1 1 2 1 None 10
     = Inr m"
  by (simp add: Node2vec_init_def nn_Embedding_def bind_def)

text \<open>
  C9, amended. A \<open>walk_length\<close> below \<open>window_size\<close> fails the construction with an
  AssertionError, and with \<open>window_size \<le> walk_length\<close> a negative embedding dimension
  fails it with the error of the table's allocation; both before any object exists that
  could be trained. An embedding dimension of zero is not refused: with
  \<open>window_size \<le> walk_length\<close> and an embedding dimension \<open>\<ge> 0\<close> the construction
  succeeds, with a table of \<open>N + 1\<close> rows and the configured values stored as given. The
  constructor has no decay mode among its arguments.
\<close>

theorem Node2vec_init_checks:
  "(walk_length < window_size \<longrightarrow>
      Node2vec_init init g embedding_dim walk_length p q num_walks window_size num_negatives
        weight_name init_c = Inl AssertionError)
   \<and> (window_size \<le> walk_length \<and> embedding_dim < 0 \<longrightarrow>
      Node2vec_init init g embedding_dim walk_length p q num_walks window_size num_negatives
        weight_name init_c = Inl RuntimeError)
   \<and> (window_size \<le> walk_length \<and> 0 \<le> embedding_dim \<longrightarrow>
      (\<exists>m. Node2vec_init init g embedding_dim walk_length p q num_walks window_size
        num_negatives weight_name init_c = Inr m
        \<and> n2v_walk_length m = walk_length \<and> n2v_window_size m = window_size
        \<and> n2v_N m = int (num_nodes g) \<and> n2v_c m = init_c
        \<and> length (n2v_embedding m) = num_nodes g + 1))"
  by (simp add: Node2vec_init_def nn_Embedding_def bind_def nat_add_distrib)

theorem Node2vec_init_checks_witness:
  "Node2vec_init (\<lambda>r k. 0) \<lparr>num_nodes = 2, edata_length = [1, 1]\<rparr> 3 1 1 1 1 2 1 None 10
      = Inl AssertionError
   \<and> Node2vec_init (\<lambda>r k. 0) \<lparr>num_nodes = 2, edata_length = [1, 1]\<rparr> (- 1) 4 1 1 1 2 1 None 10
      = Inl RuntimeError
   \<and> (\<exists>m. Node2vec_init (\<lambda>r k. 0) \<lparr>num_nodes = 2, edata_length = [1, 1]\<rparr> 3 4 1 1 1 2 1 None 10
      = Inr m \<and> length (n2v_embedding m) = 3)"
  using Node2vec_init_checks [of 1 2 "\<lambda>r k. 0" "\<lparr>num_nodes = 2, edata_length = [1, 1]\<rparr>" 3 1 1 1 1 None 10]
    Node2vec_init_checks [of 4 2 "\<lambda>r k. 0" "\<lparr>num_nodes = 2, edata_length = [1, 1]\<rparr>" "- 1" 1 1 1 1 None 10]
    Node2vec_init_checks [of 4 2 "\<lambda>r k. 0" "\<lparr>num_nodes = 2, edata_length = [1, 1]\<rparr>" 3 1 1 1 1 None 10]
  by auto

end
